theory Spec2Isabelle
  imports Main
begin

section \<open>Constants of schedule.py\<close>

text \<open>
  The glyphs are one-character Python strings.  A Python string is a sequence of Unicode
  code points, so a rendered string is modelled as the list of its code points.
\<close>

type_synonym ustr = "nat list"

definition EMPTY :: ustr where "EMPTY = [9634]"
definition CURRENT :: ustr where "CURRENT = [9635]"
definition FILLED :: ustr where "FILLED = [9632]"
definition REST :: ustr where "REST = [9640]"

definition START_HOUR :: int where "START_HOUR = 8"
definition END_HOUR :: int where "END_HOUR = 21"
definition TOTAL_SLOTS :: int where "TOTAL_SLOTS = (END_HOUR - START_HOUR) * 2"
definition MAX_TASKS :: int where "MAX_TASKS = 5"

section \<open>TimeGrid: get_current_slot and get_elapsed_time\<close>

text \<open>
  Both functions read \<open>datetime.now()\<close>; the model takes the value read as an argument.
  Only the fields of a \<open>datetime\<close> that the program looks at are kept.  Python guarantees
  the ranges collected in \<open>valid_datetime\<close> for every \<open>datetime\<close> object.
\<close>

record datetime =
  hour :: int
  minute :: int
  second :: int

definition valid_datetime :: "datetime \<Rightarrow> bool" where
  "valid_datetime now \<longleftrightarrow>
     0 \<le> hour now \<and> hour now < 24 \<and> 0 \<le> minute now \<and> minute now < 60 \<and>
     0 \<le> second now \<and> second now < 60"

definition get_current_slot :: "datetime \<Rightarrow> int" where
  "get_current_slot now =
     (if hour now < START_HOUR \<or> hour now \<ge> END_HOUR then - 1
      else let minutes_from_start = (hour now - START_HOUR) * 60 + minute now
           in minutes_from_start div 30)"

definition get_elapsed_time :: "datetime \<Rightarrow> int \<times> int" where
  "get_elapsed_time now =
     (if hour now < START_HOUR then (0, 0)
      else let minutes_from_start = (hour now - START_HOUR) * 60 + minute now;
               hours = minutes_from_start div 60;
               half_hours = (minutes_from_start mod 60) div 30
           in (hours, half_hours * 3))"

subsection \<open>The specification's reading of the time grid\<close>

text \<open>
  The specification speaks of the wall-clock time itself, of the minutes elapsed since
  08:00 and of their floor.  These definitions follow its words, on the time of day in
  seconds; the source's functions are compared with them below.
\<close>

definition seconds_of_day :: "datetime \<Rightarrow> int" where
  "seconds_of_day now = hour now * 3600 + minute now * 60 + second now"

definition spec_minutes_since_start :: "datetime \<Rightarrow> int" where
  "spec_minutes_since_start now = (seconds_of_day now - START_HOUR * 3600) div 60"

definition spec_current_slot :: "datetime \<Rightarrow> int" where
  "spec_current_slot now =
     (if seconds_of_day now < START_HOUR * 3600 \<or> END_HOUR * 3600 \<le> seconds_of_day now
      then - 1
      else spec_minutes_since_start now div 30)"

definition spec_elapsed_display :: "datetime \<Rightarrow> int \<times> int" where
  "spec_elapsed_display now =
     (if seconds_of_day now < START_HOUR * 3600 then (0, 0)
      else (spec_minutes_since_start now div 60, if minute now \<ge> 30 then 3 else 0))"

text \<open>The day-end test of the run loop (line 347 of schedule.py).\<close>

definition day_end_test :: "int \<Rightarrow> bool" where
  "day_end_test current_slot \<longleftrightarrow> current_slot = - 1 \<or> current_slot \<ge> TOTAL_SLOTS"

section \<open>Task store and application state\<close>

text \<open>
  The two dataclasses of schedule.py.  The slot lists are Python lists of integers; the
  program reads them with \<open>in\<close> and changes them with \<open>remove\<close> (which deletes the first
  occurrence) and \<open>append\<close>.  \<open>mode\<close> and \<open>edit_focus\<close> are Python strings.
  Every \<open>Task\<close> of a state is an object of its own (\<open>__post_init__\<close> builds each one
  separately), so a task list is modelled by value.
\<close>

record Task =
  name :: string
  slots :: "int list"
  rest_slots :: "int list"

record AppState =
  tasks :: "Task list"
  cursor_row :: int
  cursor_col :: int
  mode :: string
  edit_focus :: string

definition Task_init :: Task where
  "Task_init = \<lparr>name = [], slots = [], rest_slots = []\<rparr>"

definition AppState_init :: AppState where
  "AppState_init =
     \<lparr>tasks = replicate (nat MAX_TASKS) Task_init, cursor_row = 0, cursor_col = 0,
      mode = ''edit'', edit_focus = ''name''\<rparr>"

subsection \<open>Python list indexing\<close>

datatype error = IndexError

text \<open>
  \<open>xs[i]\<close> accepts \<open>-len(xs) \<le> i < len(xs)\<close>, a negative index counting from the end, and
  raises \<open>IndexError\<close> otherwise.  \<open>py_index\<close> gives the position that is read or written.
\<close>

definition py_index :: "nat \<Rightarrow> int \<Rightarrow> nat option" where
  "py_index n i =
     (if 0 \<le> i \<and> i < int n then Some (nat i)
      else if - int n \<le> i \<and> i < 0 then Some (nat (int n + i))
      else None)"

text \<open>\<open>range(n)\<close> and \<open>chr\<close>.\<close>

definition py_range :: "int \<Rightarrow> int list" where
  "py_range n = [0..n - 1]"

definition chr :: "int \<Rightarrow> char" where
  "chr key = char_of key"

section \<open>Edit controller\<close>

text \<open>Key codes of the curses library (the values of ncurses' \<open>curses.h\<close>).\<close>

definition KEY_DOWN :: int where "KEY_DOWN = 258"
definition KEY_UP :: int where "KEY_UP = 259"
definition KEY_LEFT :: int where "KEY_LEFT = 260"
definition KEY_RIGHT :: int where "KEY_RIGHT = 261"
definition KEY_BACKSPACE :: int where "KEY_BACKSPACE = 263"
definition KEY_F5 :: int where "KEY_F5 = 269"
definition KEY_ENTER :: int where "KEY_ENTER = 343"

text \<open>
  The Space branch (lines 292 to 299) and the R branch (lines 304 to 311) of
  \<open>handle_edit_input\<close>, acting on the task of the cursor row; the specification calls
  them \<open>toggle_work\<close> and \<open>toggle_rest\<close>.
\<close>

definition toggle_work :: "Task \<Rightarrow> int \<Rightarrow> Task" where
  "toggle_work task col =
     (if col \<in> set (slots task) then task\<lparr>slots := remove1 col (slots task)\<rparr>
      else if col \<in> set (rest_slots task)
        then task\<lparr>rest_slots := remove1 col (rest_slots task), slots := slots task @ [col]\<rparr>
      else task\<lparr>slots := slots task @ [col]\<rparr>)"

definition toggle_rest :: "Task \<Rightarrow> int \<Rightarrow> Task" where
  "toggle_rest task col =
     (if col \<in> set (rest_slots task) then task\<lparr>rest_slots := remove1 col (rest_slots task)\<rparr>
      else if col \<in> set (slots task)
        then task\<lparr>slots := remove1 col (slots task), rest_slots := rest_slots task @ [col]\<rparr>
      else task\<lparr>rest_slots := rest_slots task @ [col]\<rparr>)"

text \<open>
  \<open>handle_edit_input\<close> mutates the state and returns the start flag; the model returns
  the new state with the flag.  \<open>state.tasks[state.cursor_row]\<close> is read after the tests
  for F5, Tab, Up and Down, and raises \<open>IndexError\<close> when the row is no index of the list.
\<close>

definition handle_edit_input :: "AppState \<Rightarrow> int \<Rightarrow> error + AppState \<times> bool" where
  "handle_edit_input state key =
     (if key = KEY_F5 then Inr (state, True)
      else if key = 9 \<or> key = 9 then
        Inr (state\<lparr>edit_focus := (if edit_focus state = ''name'' then ''slots'' else ''name'')\<rparr>,
             False)
      else if key = KEY_UP then
        Inr (state\<lparr>cursor_row := max 0 (cursor_row state - 1)\<rparr>, False)
      else if key = KEY_DOWN then
        Inr (state\<lparr>cursor_row := min (MAX_TASKS - 1) (cursor_row state + 1)\<rparr>, False)
      else if edit_focus state = ''name'' then
        (case py_index (length (tasks state)) (cursor_row state) of
           None \<Rightarrow> Inl IndexError
         | Some i \<Rightarrow>
             let task = tasks state ! i in
             if key = 10 \<or> key = KEY_ENTER \<or> key = 10 \<or> key = 13 then
               Inr (state\<lparr>cursor_row := min (MAX_TASKS - 1) (cursor_row state + 1)\<rparr>, False)
             else if key = KEY_BACKSPACE \<or> key = 127 \<or> key = 8 then
               Inr (state\<lparr>tasks := (tasks state)[i := task\<lparr>name := butlast (name task)\<rparr>]\<rparr>,
                    False)
             else if 32 \<le> key \<and> key \<le> 126 then
               (if length (name task) < 15
                then Inr (state\<lparr>tasks := (tasks state)[i := task\<lparr>name := name task @ [chr key]\<rparr>]\<rparr>,
                          False)
                else Inr (state, False))
             else Inr (state, False))
      else
        (case py_index (length (tasks state)) (cursor_row state) of
           None \<Rightarrow> Inl IndexError
         | Some i \<Rightarrow>
             let task = tasks state ! i in
             if key = KEY_LEFT then
               Inr (state\<lparr>cursor_col := max 0 (cursor_col state - 1)\<rparr>, False)
             else if key = KEY_RIGHT then
               Inr (state\<lparr>cursor_col := min (TOTAL_SLOTS - 1) (cursor_col state + 1)\<rparr>, False)
             else if key = 32 then
               Inr (state\<lparr>tasks := (tasks state)[i := toggle_work task (cursor_col state)]\<rparr>,
                    False)
             else if key = 114 \<or> key = 82 then
               Inr (state\<lparr>tasks := (tasks state)[i := toggle_rest task (cursor_col state)]\<rparr>,
                    False)
             else Inr (state, False)))"

text \<open>
  The key events that the main loop hands to the edit controller, one call each
  (lines 363 to 366): the first call that returns the start flag puts the state in run
  mode, and the controller is not called again.
\<close>

fun edit_keys :: "AppState \<Rightarrow> int list \<Rightarrow> error + AppState" where
  "edit_keys state [] = Inr state"
| "edit_keys state (key # keys) =
     (case handle_edit_input state key of
        Inl e \<Rightarrow> Inl e
      | Inr (state', start) \<Rightarrow>
          if start then Inr (state'\<lparr>mode := ''run''\<rparr>) else edit_keys state' keys)"

subsection \<open>The specification's reading of the edit tables\<close>

text \<open>
  The name rows of the transition table of the specification: a printable character is
  appended when the length is below 15 and ignored otherwise, Backspace drops the last
  character; any other key leaves the name alone.
\<close>

definition is_printable :: "int \<Rightarrow> bool" where
  "is_printable key \<longleftrightarrow> 32 \<le> key \<and> key \<le> 126"

definition is_backspace :: "int \<Rightarrow> bool" where
  "is_backspace key \<longleftrightarrow> key = KEY_BACKSPACE \<or> key = 127 \<or> key = 8"

definition is_enter :: "int \<Rightarrow> bool" where
  "is_enter key \<longleftrightarrow> key = 10 \<or> key = 13 \<or> key = KEY_ENTER"

definition is_arrow :: "int \<Rightarrow> bool" where
  "is_arrow key \<longleftrightarrow> key = KEY_UP \<or> key = KEY_DOWN \<or> key = KEY_LEFT \<or> key = KEY_RIGHT"

fun spec_name_edit :: "string \<Rightarrow> int list \<Rightarrow> string" where
  "spec_name_edit n [] = n"
| "spec_name_edit n (key # keys) =
     (if is_backspace key then spec_name_edit (butlast n) keys
      else if is_printable key then
        spec_name_edit (if length n < 15 then n @ [chr key] else n) keys
      else spec_name_edit n keys)"

text \<open>The keys that the two transition tables of the controller act on.\<close>

definition recognized_key :: "string \<Rightarrow> int \<Rightarrow> bool" where
  "recognized_key focus key \<longleftrightarrow>
     key = KEY_F5 \<or> key = 9 \<or> key = KEY_UP \<or> key = KEY_DOWN \<or>
     (if focus = ''name'' then is_enter key \<or> is_backspace key \<or> is_printable key
      else key = KEY_LEFT \<or> key = KEY_RIGHT \<or> key = 32 \<or> key = 114 \<or> key = 82)"

text \<open>The data-model invariant of a task: each slot list is a set, and the two are disjoint.\<close>

definition task_inv :: "Task \<Rightarrow> bool" where
  "task_inv t \<longleftrightarrow>
     distinct (slots t) \<and> distinct (rest_slots t) \<and> set (slots t) \<inter> set (rest_slots t) = {}"

text \<open>The cursor ranges of the data model.\<close>

definition cursor_in_bounds :: "AppState \<Rightarrow> bool" where
  "cursor_in_bounds st \<longleftrightarrow>
     0 \<le> cursor_row st \<and> cursor_row st \<le> MAX_TASKS - 1 \<and>
     0 \<le> cursor_col st \<and> cursor_col st \<le> TOTAL_SLOTS - 1"

section \<open>Render engine\<close>

text \<open>
  \<open>format_slot_bar\<close> builds the bar of one task: the loop over \<open>range(TOTAL_SLOTS)\<close>
  appends the glyph of the slot twice and a dot after every slot but the last.
\<close>

definition format_slot_bar :: "int list \<Rightarrow> int list \<Rightarrow> int \<Rightarrow> bool \<Rightarrow> ustr" where
  "format_slot_bar slots' rest_slots' current_slot is_running =
     foldl (\<lambda>result i.
        let char =
              (if i \<in> set rest_slots' then REST
               else if i \<in> set slots' then
                 (if is_running then
                    (if i < current_slot then FILLED
                     else if i = current_slot then CURRENT
                     else EMPTY)
                  else EMPTY)
               else [32]);
            result = result @ char @ char
        in if i < TOTAL_SLOTS - 1 then result @ [46] else result)
       [] (py_range TOTAL_SLOTS)"

text \<open>
  A slot takes two characters and a separator, so the glyph pair of slot \<open>i\<close> starts at
  position \<open>3 * i\<close> of a bar (as \<open>cursor_x\<close> at line 204 has it).
\<close>

definition bar_cell :: "ustr \<Rightarrow> int \<Rightarrow> ustr" where
  "bar_cell bar i = take 2 (drop (3 * nat i) bar)"

text \<open>
  The glyph rule in the specification's words: a rest slot shows the rest glyph in either
  mode; a work slot shows filled, current or empty by its position against the current
  slot while running, and empty while editing; an unmarked slot is blank.
\<close>

definition spec_glyph :: "int list \<Rightarrow> int list \<Rightarrow> int \<Rightarrow> bool \<Rightarrow> int \<Rightarrow> ustr" where
  "spec_glyph work rest current_slot running i =
     (if i \<in> set rest then REST
      else if i \<in> set work then
        (if running then
           (if i < current_slot then FILLED
            else if i = current_slot then CURRENT
            else EMPTY)
         else EMPTY)
      else [32])"

text \<open>
  The slot bars that \<open>draw_interface\<close> computes, row by row (lines 136, 137, 169, 170 and
  194); \<open>now\<close> is the clock value read by its call of \<open>get_current_slot\<close>.  Reading
  \<open>state.tasks[row_idx]\<close> raises when the state has fewer than \<open>MAX_TASKS\<close> tasks.
\<close>

fun slot_bar_rows :: "Task list \<Rightarrow> int \<Rightarrow> bool \<Rightarrow> int list \<Rightarrow> error + ustr list" where
  "slot_bar_rows ts current_slot is_running [] = Inr []"
| "slot_bar_rows ts current_slot is_running (row_idx # rows) =
     (case py_index (length ts) row_idx of
        None \<Rightarrow> Inl IndexError
      | Some i \<Rightarrow>
          (case slot_bar_rows ts current_slot is_running rows of
             Inl e \<Rightarrow> Inl e
           | Inr bars \<Rightarrow>
               Inr (format_slot_bar (slots (ts ! i)) (rest_slots (ts ! i)) current_slot is_running
                    # bars)))"

definition draw_interface_slot_bars :: "AppState \<Rightarrow> datetime \<Rightarrow> error + ustr list" where
  "draw_interface_slot_bars state now =
     (let is_running = (mode state = ''run'');
          current_slot = (if is_running then get_current_slot now else - 1)
      in slot_bar_rows (tasks state) current_slot is_running (py_range MAX_TASKS))"

text \<open>
  The reads of \<open>draw_interface\<close> that are outside its \<open>try\<close> blocks: the task of every row
  (line 170) and, in edit mode with the focus on the name, the task of the cursor row
  (line 229).
\<close>

definition draw_interface_raises :: "AppState \<Rightarrow> bool" where
  "draw_interface_raises state \<longleftrightarrow>
     (\<exists>row_idx \<in> set (py_range MAX_TASKS). py_index (length (tasks state)) row_idx = None) \<or>
     (mode state = ''edit'' \<and> edit_focus state = ''name'' \<and>
      py_index (length (tasks state)) (cursor_row state) = None)"

section \<open>Main loop\<close>

text \<open>
  What the loop does to the outside is a trace of events: a render of the interface, an
  alert (\<open>beep\<close>), a pause (\<open>time.sleep(0.3)\<close>, in milliseconds).  One iteration reads the
  clock at line 338 (\<open>tick_now\<close>), again inside \<open>get_current_slot\<close> at line 339
  (\<open>tick_slot_now\<close>), and a key from \<open>getch\<close> (\<open>- 1\<close> on timeout).
\<close>

datatype event = Render | Beep | Sleep nat

record main_state =
  state :: AppState
  last_minute :: int
  last_beep_slot :: int

record tick =
  tick_now :: datetime
  tick_slot_now :: datetime
  tick_key :: int

datatype outcome = Continue main_state | Break | Raised error

definition main_init :: main_state where
  "main_init = \<lparr>state = AppState_init, last_minute = - 1, last_beep_slot = - 1\<rparr>"

definition final_sounds :: "event list" where
  "final_sounds = concat (map (\<lambda>_. [Beep, Sleep 300]) (py_range 5))"

definition main_iteration :: "main_state \<Rightarrow> tick \<Rightarrow> event list \<times> outcome" where
  "main_iteration st t =
     (if draw_interface_raises (state st) then ([], Raised IndexError)
      else
        let ev = [Render];
            run = (mode (state st) = ''run'');
            current_slot = get_current_slot (tick_slot_now t);
            minute_changed = (run \<and> minute (tick_now t) \<noteq> last_minute st);
            st = (if minute_changed then st\<lparr>last_minute := minute (tick_now t)\<rparr> else st);
            ev = (if minute_changed then ev @ [Beep] else ev)
        in if run \<and> day_end_test current_slot then (ev @ final_sounds, Break)
           else if tick_key t = - 1 then (ev, Continue st)
           else if mode (state st) = ''edit'' then
             (case handle_edit_input (state st) (tick_key t) of
                Inl e \<Rightarrow> (ev, Raised e)
              | Inr (state', start) \<Rightarrow>
                  if start then
                    (ev, Continue (st\<lparr>state := state'\<lparr>mode := ''run''\<rparr>, last_minute := - 1\<rparr>))
                  else (ev, Continue (st\<lparr>state := state'\<rparr>)))
           else if tick_key t = 113 \<or> tick_key t = 81 then (ev, Break)
           else (ev, Continue st))"

text \<open>
  \<open>while True\<close> over the ticks that arrive: the loop stops at a \<open>break\<close> or an exception
  and reads no tick after it; with the ticks used up it is still running.
\<close>

fun main_loop :: "main_state \<Rightarrow> tick list \<Rightarrow> event list \<times> outcome" where
  "main_loop st [] = ([], Continue st)"
| "main_loop st (t # ts) =
     (case main_iteration st t of
        (ev, Continue st') \<Rightarrow> (case main_loop st' ts of (ev', out) \<Rightarrow> (ev @ ev', out))
      | (ev, out) \<Rightarrow> (ev, out))"

section \<open>Properties of the time grid\<close>

lemma TOTAL_SLOTS_eq: "TOTAL_SLOTS = 26"
  by (simp add: TOTAL_SLOTS_def START_HOUR_def END_HOUR_def)

lemma before_start_iff:
  assumes "valid_datetime now"
  shows "seconds_of_day now < START_HOUR * 3600 \<longleftrightarrow> hour now < START_HOUR"
  using assms unfolding valid_datetime_def seconds_of_day_def START_HOUR_def by auto

lemma after_end_iff:
  assumes "valid_datetime now"
  shows "END_HOUR * 3600 \<le> seconds_of_day now \<longleftrightarrow> END_HOUR \<le> hour now"
  using assms unfolding valid_datetime_def seconds_of_day_def END_HOUR_def by auto

lemma minutes_since_start_eq:
  assumes "valid_datetime now"
  shows "spec_minutes_since_start now = (hour now - START_HOUR) * 60 + minute now"
proof -
  have "seconds_of_day now - START_HOUR * 3600
      = ((hour now - START_HOUR) * 60 + minute now) * 60 + second now"
    by (simp add: seconds_of_day_def algebra_simps)
  moreover have "0 \<le> second now" "second now < 60"
    using assms by (simp_all add: valid_datetime_def)
  ultimately show ?thesis
    unfolding spec_minutes_since_start_def by simp
qed

lemma get_current_slot_refines:
  assumes "valid_datetime now"
  shows "get_current_slot now = spec_current_slot now"
  using assms
  by (simp add: get_current_slot_def spec_current_slot_def before_start_iff after_end_iff
      minutes_since_start_eq Let_def)

lemma get_current_slot_range:
  assumes "valid_datetime now" "START_HOUR \<le> hour now" "hour now < END_HOUR"
  shows "0 \<le> get_current_slot now \<and> get_current_slot now < TOTAL_SLOTS"
  using assms
  unfolding valid_datetime_def get_current_slot_def TOTAL_SLOTS_eq START_HOUR_def END_HOUR_def
  by (simp add: Let_def) linarith

lemma div_mod_sixty:
  fixes a m :: int
  assumes "0 \<le> m" "m < 60"
  shows "(a * 60 + m) div 60 = a" and "(a * 60 + m) mod 60 = m"
  using assms by simp_all

lemma elapsed_hours_eq:
  assumes "valid_datetime now" "START_HOUR \<le> hour now"
  shows "get_elapsed_time now = (hour now - START_HOUR, if 30 \<le> minute now then 3 else 0)"
proof -
  have m: "0 \<le> minute now" "minute now < 60"
    using assms(1) by (simp_all add: valid_datetime_def)
  have d: "((hour now - START_HOUR) * 60 + minute now) div 60 = hour now - START_HOUR"
    using m by (rule div_mod_sixty(1))
  have r: "((hour now - START_HOUR) * 60 + minute now) mod 60 = minute now"
    using m by (rule div_mod_sixty(2))
  have h: "minute now div 30 * 3 = (if 30 \<le> minute now then 3 else 0)"
    using m by auto
  show ?thesis
    unfolding get_elapsed_time_def Let_def d r h using assms(2) by simp
qed

lemma get_elapsed_time_refines:
  assumes "valid_datetime now"
  shows "get_elapsed_time now = spec_elapsed_display now"
proof (cases "hour now < START_HOUR")
  case True
  then show ?thesis
    using assms by (simp add: get_elapsed_time_def spec_elapsed_display_def before_start_iff)
next
  case False
  then have le: "START_HOUR \<le> hour now" by simp
  have m: "0 \<le> minute now" "minute now < 60"
    using assms(1) by (simp_all add: valid_datetime_def)
  have "spec_minutes_since_start now div 60 = hour now - START_HOUR"
    using div_mod_sixty(1) [OF m] by (simp add: minutes_since_start_eq [OF assms])
  then show ?thesis
    using False by (simp add: elapsed_hours_eq [OF assms le] spec_elapsed_display_def
        before_start_iff [OF assms])
qed

section \<open>Claims about the time grid\<close>

text \<open>
  Claim C2.  For every wall-clock time, \<open>get_current_slot\<close> is \<open>- 1\<close> when the hour is
  below 8 or at least 21, and otherwise the floor of the minutes since 08:00 divided by
  30, a value in \<open>[0, 26)\<close>.  It agrees with the specification's function on the time of
  day in seconds, is 0 at 08:00 and 25 throughout \<open>[20:30, 21:00)\<close>.
\<close>

theorem current_slot_spec:
  assumes "valid_datetime now"
  shows "get_current_slot now = spec_current_slot now \<and>
    get_current_slot now =
      (if hour now < START_HOUR \<or> END_HOUR \<le> hour now then - 1
       else spec_minutes_since_start now div 30) \<and>
    (START_HOUR \<le> hour now \<and> hour now < END_HOUR \<longrightarrow>
       0 \<le> get_current_slot now \<and> get_current_slot now < TOTAL_SLOTS) \<and>
    (hour now = 8 \<and> minute now = 0 \<longrightarrow> get_current_slot now = 0) \<and>
    (hour now = 20 \<and> 30 \<le> minute now \<longrightarrow> get_current_slot now = 25)"
proof -
  have a: "get_current_slot now = spec_current_slot now"
    by (rule get_current_slot_refines [OF assms])
  have b: "get_current_slot now =
      (if hour now < START_HOUR \<or> END_HOUR \<le> hour now then - 1
       else spec_minutes_since_start now div 30)"
    by (simp add: get_current_slot_def minutes_since_start_eq [OF assms] Let_def)
  have c: "START_HOUR \<le> hour now \<and> hour now < END_HOUR \<longrightarrow>
       0 \<le> get_current_slot now \<and> get_current_slot now < TOTAL_SLOTS"
    using get_current_slot_range [OF assms] by blast
  have d: "hour now = 8 \<and> minute now = 0 \<longrightarrow> get_current_slot now = 0"
    by (simp add: get_current_slot_def START_HOUR_def END_HOUR_def)
  have m: "minute now < 60"
    using assms by (simp add: valid_datetime_def)
  have e: "hour now = 20 \<and> 30 \<le> minute now \<longrightarrow> get_current_slot now = 25"
    using m by (auto simp add: get_current_slot_def START_HOUR_def END_HOUR_def)
  show ?thesis
    using a b c d e by blast
qed

theorem current_slot_spec_witness:
  "valid_datetime \<lparr>hour = 8, minute = 0, second = 0\<rparr> \<and>
   get_current_slot \<lparr>hour = 8, minute = 0, second = 0\<rparr> = 0 \<and>
   spec_current_slot \<lparr>hour = 8, minute = 0, second = 0\<rparr> = 0 \<and>
   valid_datetime \<lparr>hour = 20, minute = 47, second = 59\<rparr> \<and>
   get_current_slot \<lparr>hour = 20, minute = 47, second = 59\<rparr> = 25 \<and>
   spec_current_slot \<lparr>hour = 20, minute = 47, second = 59\<rparr> = 25 \<and>
   valid_datetime \<lparr>hour = 7, minute = 59, second = 59\<rparr> \<and>
   spec_current_slot \<lparr>hour = 7, minute = 59, second = 59\<rparr> = - 1 \<and>
   valid_datetime \<lparr>hour = 21, minute = 0, second = 0\<rparr> \<and>
   spec_current_slot \<lparr>hour = 21, minute = 0, second = 0\<rparr> = - 1"
proof -
  have v: "valid_datetime \<lparr>hour = 8, minute = 0, second = 0\<rparr>"
    "valid_datetime \<lparr>hour = 20, minute = 47, second = 59\<rparr>"
    "valid_datetime \<lparr>hour = 7, minute = 59, second = 59\<rparr>"
    "valid_datetime \<lparr>hour = 21, minute = 0, second = 0\<rparr>"
    by (simp_all add: valid_datetime_def)
  show ?thesis
    using v current_slot_spec [OF v(1)] current_slot_spec [OF v(2)]
      current_slot_spec [OF v(3)] current_slot_spec [OF v(4)]
    by (simp add: START_HOUR_def END_HOUR_def)
qed

text \<open>
  Claim C10.  For every wall-clock time, \<open>get_current_slot\<close> stays below \<open>TOTAL_SLOTS\<close>: it
  is \<open>- 1\<close> or between 0 and 25, and \<open>- 1\<close> from 21:00 on.  So the second disjunct of the
  day-end test of the run loop never holds, and the test is true exactly when the slot
  is \<open>- 1\<close>.
\<close>

theorem current_slot_below_total:
  assumes "valid_datetime now"
  shows "get_current_slot now < TOTAL_SLOTS \<and>
    (get_current_slot now = - 1 \<or> (0 \<le> get_current_slot now \<and> get_current_slot now \<le> 25)) \<and>
    (END_HOUR \<le> hour now \<longrightarrow> get_current_slot now = - 1) \<and>
    \<not> TOTAL_SLOTS \<le> get_current_slot now \<and>
    (day_end_test (get_current_slot now) \<longleftrightarrow> get_current_slot now = - 1)"
proof (cases "START_HOUR \<le> hour now \<and> hour now < END_HOUR")
  case True
  then have "0 \<le> get_current_slot now \<and> get_current_slot now < TOTAL_SLOTS"
    using get_current_slot_range [OF assms] by blast
  then show ?thesis
    using True by (auto simp add: day_end_test_def TOTAL_SLOTS_eq)
next
  case False
  then have "get_current_slot now = - 1"
    by (auto simp add: get_current_slot_def)
  then show ?thesis
    by (simp add: day_end_test_def TOTAL_SLOTS_eq)
qed

theorem current_slot_below_total_witness:
  "valid_datetime \<lparr>hour = 23, minute = 59, second = 59\<rparr> \<and>
   get_current_slot \<lparr>hour = 23, minute = 59, second = 59\<rparr> = - 1 \<and>
   day_end_test (get_current_slot \<lparr>hour = 23, minute = 59, second = 59\<rparr>) \<and>
   valid_datetime \<lparr>hour = 20, minute = 59, second = 59\<rparr> \<and>
   get_current_slot \<lparr>hour = 20, minute = 59, second = 59\<rparr> < TOTAL_SLOTS \<and>
   \<not> day_end_test (get_current_slot \<lparr>hour = 20, minute = 59, second = 59\<rparr>)"
proof -
  have v: "valid_datetime \<lparr>hour = 23, minute = 59, second = 59\<rparr>"
    "valid_datetime \<lparr>hour = 20, minute = 59, second = 59\<rparr>"
    by (simp_all add: valid_datetime_def)
  have late: "END_HOUR \<le> hour \<lparr>hour = 23, minute = 59, second = 59\<rparr>"
    by (simp add: END_HOUR_def)
  have g: "get_current_slot \<lparr>hour = 20, minute = 59, second = 59\<rparr> \<noteq> - 1"
    by (simp add: get_current_slot_def START_HOUR_def END_HOUR_def)
  show ?thesis
    using v late g current_slot_below_total [OF v(1)] current_slot_below_total [OF v(2)]
    by blast
qed

text \<open>
  Claim C8.  For every wall-clock time, \<open>get_elapsed_time\<close> is \<open>(0, 0)\<close> before 08:00 and
  otherwise the whole hours since 08:00 with the tick 3 in the second half of the hour
  and 0 in the first; it is \<open>(1, 3)\<close> throughout \<open>[09:30, 10:00)\<close>, and from 21:00 on the
  hours are at least 13 and grow with the hour.
\<close>

theorem elapsed_display_spec:
  assumes "valid_datetime now"
  shows "get_elapsed_time now = spec_elapsed_display now \<and>
    (hour now < START_HOUR \<longrightarrow> get_elapsed_time now = (0, 0)) \<and>
    (START_HOUR \<le> hour now \<longrightarrow>
       get_elapsed_time now = (hour now - START_HOUR, if 30 \<le> minute now then 3 else 0)) \<and>
    (hour now = 9 \<and> 30 \<le> minute now \<longrightarrow> get_elapsed_time now = (1, 3)) \<and>
    (END_HOUR \<le> hour now \<longrightarrow> 13 \<le> fst (get_elapsed_time now)) \<and>
    (\<forall>later. valid_datetime later \<and> END_HOUR \<le> hour now \<and> hour now < hour later \<longrightarrow>
       fst (get_elapsed_time now) < fst (get_elapsed_time later))"
proof -
  have a: "get_elapsed_time now = spec_elapsed_display now"
    by (rule get_elapsed_time_refines [OF assms])
  have b: "hour now < START_HOUR \<longrightarrow> get_elapsed_time now = (0, 0)"
    by (simp add: get_elapsed_time_def)
  have c: "START_HOUR \<le> hour now \<longrightarrow>
       get_elapsed_time now = (hour now - START_HOUR, if 30 \<le> minute now then 3 else 0)"
    using elapsed_hours_eq [OF assms] by blast
  have d: "hour now = 9 \<and> 30 \<le> minute now \<longrightarrow> get_elapsed_time now = (1, 3)"
    using c by (simp add: START_HOUR_def)
  have e: "END_HOUR \<le> hour now \<longrightarrow> 13 \<le> fst (get_elapsed_time now)"
    using c by (simp add: START_HOUR_def END_HOUR_def)
  have f: "\<forall>later. valid_datetime later \<and> END_HOUR \<le> hour now \<and> hour now < hour later \<longrightarrow>
       fst (get_elapsed_time now) < fst (get_elapsed_time later)"
  proof (intro allI impI)
    fix later
    assume h: "valid_datetime later \<and> END_HOUR \<le> hour now \<and> hour now < hour later"
    then have "START_HOUR \<le> hour now" "START_HOUR \<le> hour later"
      by (simp_all add: START_HOUR_def END_HOUR_def)
    then have "fst (get_elapsed_time now) = hour now - START_HOUR"
      "fst (get_elapsed_time later) = hour later - START_HOUR"
      using elapsed_hours_eq [OF assms] elapsed_hours_eq [of later] h by simp_all
    then show "fst (get_elapsed_time now) < fst (get_elapsed_time later)"
      using h by simp
  qed
  show ?thesis
    using a b c d e f by blast
qed

theorem elapsed_display_spec_witness:
  "valid_datetime \<lparr>hour = 9, minute = 42, second = 7\<rparr> \<and>
   get_elapsed_time \<lparr>hour = 9, minute = 42, second = 7\<rparr> = (1, 3) \<and>
   valid_datetime \<lparr>hour = 6, minute = 30, second = 0\<rparr> \<and>
   get_elapsed_time \<lparr>hour = 6, minute = 30, second = 0\<rparr> = (0, 0) \<and>
   valid_datetime \<lparr>hour = 22, minute = 10, second = 0\<rparr> \<and>
   valid_datetime \<lparr>hour = 23, minute = 10, second = 0\<rparr> \<and>
   13 \<le> fst (get_elapsed_time \<lparr>hour = 22, minute = 10, second = 0\<rparr>) \<and>
   fst (get_elapsed_time \<lparr>hour = 22, minute = 10, second = 0\<rparr>)
     < fst (get_elapsed_time \<lparr>hour = 23, minute = 10, second = 0\<rparr>)"
proof -
  have v: "valid_datetime \<lparr>hour = 9, minute = 42, second = 7\<rparr>"
    "valid_datetime \<lparr>hour = 6, minute = 30, second = 0\<rparr>"
    "valid_datetime \<lparr>hour = 22, minute = 10, second = 0\<rparr>"
    "valid_datetime \<lparr>hour = 23, minute = 10, second = 0\<rparr>"
    by (simp_all add: valid_datetime_def)
  have h: "hour \<lparr>hour = 9, minute = 42, second = 7\<rparr> = 9 \<and>
      30 \<le> minute \<lparr>hour = 9, minute = 42, second = 7\<rparr>"
    "hour \<lparr>hour = 6, minute = 30, second = 0\<rparr> < START_HOUR"
    "END_HOUR \<le> hour \<lparr>hour = 22, minute = 10, second = 0\<rparr>"
    "hour \<lparr>hour = 22, minute = 10, second = 0\<rparr>
       < hour \<lparr>hour = 23, minute = 10, second = 0\<rparr>"
    by (simp_all add: START_HOUR_def END_HOUR_def)
  show ?thesis
    using v h elapsed_display_spec [OF v(1)] elapsed_display_spec [OF v(2)]
      elapsed_display_spec [OF v(3)]
    by blast
qed

section \<open>The edit controller, key by key\<close>

lemma py_index_less:
  assumes "py_index n r = Some i"
  shows "i < n"
  using assms by (auto simp add: py_index_def split: if_splits)

lemmas key_defs = KEY_F5_def KEY_UP_def KEY_DOWN_def KEY_LEFT_def KEY_RIGHT_def
  KEY_BACKSPACE_def KEY_ENTER_def

lemma handle_edit_input_F5: "handle_edit_input st KEY_F5 = Inr (st, True)"
  by (simp add: handle_edit_input_def)

lemma handle_edit_input_tab:
  "handle_edit_input st 9 =
     Inr (st\<lparr>edit_focus := (if edit_focus st = ''name'' then ''slots'' else ''name'')\<rparr>, False)"
  by (simp only: handle_edit_input_def key_defs rel_simps if_False if_True simp_thms)

lemma handle_edit_input_up:
  "handle_edit_input st KEY_UP = Inr (st\<lparr>cursor_row := max 0 (cursor_row st - 1)\<rparr>, False)"
  by (simp only: handle_edit_input_def key_defs rel_simps if_False if_True simp_thms)

lemma handle_edit_input_down:
  "handle_edit_input st KEY_DOWN =
     Inr (st\<lparr>cursor_row := min (MAX_TASKS - 1) (cursor_row st + 1)\<rparr>, False)"
  by (simp only: handle_edit_input_def key_defs rel_simps if_False if_True simp_thms)

lemma handle_edit_input_raises:
  assumes "py_index (length (tasks st)) (cursor_row st) = None"
    "key \<noteq> KEY_F5" "key \<noteq> 9" "key \<noteq> KEY_UP" "key \<noteq> KEY_DOWN"
  shows "handle_edit_input st key = Inl IndexError"
  by (simp add: handle_edit_input_def assms)

lemma handle_edit_input_enter:
  assumes "edit_focus st = ''name''" "py_index (length (tasks st)) (cursor_row st) = Some i"
    "is_enter key"
  shows "handle_edit_input st key =
     Inr (st\<lparr>cursor_row := min (MAX_TASKS - 1) (cursor_row st + 1)\<rparr>, False)"
  using assms by (auto simp add: handle_edit_input_def is_enter_def key_defs Let_def)

lemma handle_edit_input_backspace:
  assumes "edit_focus st = ''name''" "py_index (length (tasks st)) (cursor_row st) = Some i"
    "is_backspace key"
  shows "handle_edit_input st key =
     Inr (st\<lparr>tasks := (tasks st)[i := (tasks st ! i)\<lparr>name := butlast (name (tasks st ! i))\<rparr>]\<rparr>,
          False)"
  using assms by (auto simp add: handle_edit_input_def is_backspace_def key_defs Let_def)

lemma handle_edit_input_printable:
  assumes "edit_focus st = ''name''" "py_index (length (tasks st)) (cursor_row st) = Some i"
    "is_printable key"
  shows "handle_edit_input st key =
     Inr (if length (name (tasks st ! i)) < 15
          then st\<lparr>tasks := (tasks st)[i := (tasks st ! i)\<lparr>name := name (tasks st ! i) @ [chr key]\<rparr>]\<rparr>
          else st, False)"
  using assms by (auto simp add: handle_edit_input_def is_printable_def key_defs Let_def)

lemma handle_edit_input_left:
  assumes "py_index (length (tasks st)) (cursor_row st) = Some i"
  shows "handle_edit_input st KEY_LEFT =
     Inr (if edit_focus st = ''name'' then st
          else st\<lparr>cursor_col := max 0 (cursor_col st - 1)\<rparr>, False)"
  using assms by (simp add: handle_edit_input_def key_defs)

lemma handle_edit_input_right:
  assumes "py_index (length (tasks st)) (cursor_row st) = Some i"
  shows "handle_edit_input st KEY_RIGHT =
     Inr (if edit_focus st = ''name'' then st
          else st\<lparr>cursor_col := min (TOTAL_SLOTS - 1) (cursor_col st + 1)\<rparr>, False)"
  using assms by (simp add: handle_edit_input_def key_defs)

lemma handle_edit_input_space:
  assumes "edit_focus st \<noteq> ''name''" "py_index (length (tasks st)) (cursor_row st) = Some i"
  shows "handle_edit_input st 32 =
    Inr (st\<lparr>tasks := (tasks st)[i := toggle_work (tasks st ! i) (cursor_col st)]\<rparr>, False)"
  using assms by (simp add: handle_edit_input_def key_defs)

lemma handle_edit_input_r:
  assumes "edit_focus st \<noteq> ''name''" "py_index (length (tasks st)) (cursor_row st) = Some i"
    "key = 114 \<or> key = 82"
  shows "handle_edit_input st key =
    Inr (st\<lparr>tasks := (tasks st)[i := toggle_rest (tasks st ! i) (cursor_col st)]\<rparr>, False)"
  using assms by (auto simp add: handle_edit_input_def key_defs)

lemma handle_edit_input_unrecognized:
  assumes "py_index (length (tasks st)) (cursor_row st) = Some i"
    "\<not> recognized_key (edit_focus st) key"
  shows "handle_edit_input st key = Inr (st, False)"
proof (cases "edit_focus st = ''name''")
  case True
  then have r: "\<not> is_enter key" "\<not> is_backspace key" "\<not> is_printable key"
    "key \<noteq> KEY_F5" "key \<noteq> 9" "key \<noteq> KEY_UP" "key \<noteq> KEY_DOWN"
    using assms(2) by (simp_all add: recognized_key_def)
  have k: "key \<noteq> 10" "key \<noteq> 13" "key \<noteq> KEY_ENTER" "key \<noteq> KEY_BACKSPACE"
    "key \<noteq> 127" "key \<noteq> 8"
    using r(1,2) by (simp_all add: is_enter_def is_backspace_def)
  have p: "\<not> (32 \<le> key \<and> key \<le> 126)"
    using r(3) by (simp add: is_printable_def)
  show ?thesis
    by (simp add: handle_edit_input_def Let_def True assms(1) r(4-7) k p)
next
  case False
  then show ?thesis
    using assms by (simp add: handle_edit_input_def recognized_key_def Let_def)
qed

lemma handle_edit_input_flag:
  assumes "handle_edit_input st key = Inr (st', b)"
  shows "b \<longleftrightarrow> key = KEY_F5"
proof (cases "key = KEY_F5 \<or> key = 9 \<or> key = KEY_UP \<or> key = KEY_DOWN")
  case True
  then show ?thesis
    using assms handle_edit_input_F5 [of st] handle_edit_input_tab [of st]
      handle_edit_input_up [of st] handle_edit_input_down [of st]
    by (auto simp add: key_defs)
next
  case False
  then have ne: "key \<noteq> KEY_F5" "key \<noteq> 9" "key \<noteq> KEY_UP" "key \<noteq> KEY_DOWN"
    by simp_all
  show ?thesis
  proof (cases "py_index (length (tasks st)) (cursor_row st)")
    case None
    from handle_edit_input_raises [OF None ne] show ?thesis
      using assms by simp
  next
    case (Some i)
    show ?thesis
    proof (cases "recognized_key (edit_focus st) key")
      case unrec: False
      from handle_edit_input_unrecognized [OF Some unrec] show ?thesis
        using assms ne by simp
    next
      case rec: True
      show ?thesis
      proof (cases "edit_focus st = ''name''")
        case nm: True
        with rec ne have "is_enter key \<or> is_backspace key \<or> is_printable key"
          by (simp add: recognized_key_def)
        then show ?thesis
          using handle_edit_input_enter [OF nm Some] handle_edit_input_backspace [OF nm Some]
            handle_edit_input_printable [OF nm Some] assms ne(1)
          by (elim disjE) simp_all
      next
        case sl: False
        with rec ne have "key = KEY_LEFT \<or> key = KEY_RIGHT \<or> key = 32 \<or> key = 114 \<or> key = 82"
          by (simp add: recognized_key_def)
        then show ?thesis
          using handle_edit_input_left [OF Some] handle_edit_input_right [OF Some]
            handle_edit_input_space [OF sl Some] handle_edit_input_r [OF sl Some, of key]
            assms ne(1) sl
          by (elim disjE) simp_all
      qed
    qed
  qed
qed

section \<open>Slot toggles\<close>

lemma toggle_work_inv:
  assumes "task_inv t"
  shows "task_inv (toggle_work t s)"
  using assms by (auto simp add: task_inv_def toggle_work_def)

lemma toggle_rest_inv:
  assumes "task_inv t"
  shows "task_inv (toggle_rest t s)"
  using assms by (auto simp add: task_inv_def toggle_rest_def)

lemma toggle_work_cross:
  assumes "task_inv t" "s \<in> set (rest_slots t)"
  shows "s \<notin> set (rest_slots (toggle_work t s)) \<and> s \<in> set (slots (toggle_work t s))"
  using assms by (auto simp add: task_inv_def toggle_work_def)

lemma toggle_rest_cross:
  assumes "task_inv t" "s \<in> set (slots t)"
  shows "s \<notin> set (slots (toggle_rest t s)) \<and> s \<in> set (rest_slots (toggle_rest t s))"
  using assms by (auto simp add: task_inv_def toggle_rest_def)

lemma toggle_work_twice_set:
  assumes "distinct (slots t)"
  shows "set (slots (toggle_work (toggle_work t s) s)) = set (slots t)"
  using assms by (auto simp add: toggle_work_def)

lemma toggle_work_twice_cross:
  assumes "s \<in> set (rest_slots t)" "s \<notin> set (slots t)"
  shows "slots (toggle_work (toggle_work t s) s) = slots t \<and>
    rest_slots (toggle_work (toggle_work t s) s) = remove1 s (rest_slots t) \<and>
    s \<in> set (slots (toggle_work t s))"
  using assms by (simp add: toggle_work_def remove1_append)

text \<open>The slot lists of every task stay sets, and disjoint, under every key.\<close>

lemma handle_edit_input_tasks:
  assumes "handle_edit_input st key = Inr (st', b)"
  shows "tasks st' = tasks st \<or>
    (\<exists>i t'. i < length (tasks st) \<and> tasks st' = (tasks st)[i := t'] \<and>
       (t' = (tasks st ! i)\<lparr>name := name t'\<rparr> \<or>
        t' = toggle_work (tasks st ! i) (cursor_col st) \<or>
        t' = toggle_rest (tasks st ! i) (cursor_col st)))"
proof (cases "key = KEY_F5 \<or> key = 9 \<or> key = KEY_UP \<or> key = KEY_DOWN")
  case True
  then show ?thesis
    using assms handle_edit_input_F5 [of st] handle_edit_input_tab [of st]
      handle_edit_input_up [of st] handle_edit_input_down [of st]
    by auto
next
  case False
  then have ne: "key \<noteq> KEY_F5" "key \<noteq> 9" "key \<noteq> KEY_UP" "key \<noteq> KEY_DOWN"
    by simp_all
  show ?thesis
  proof (cases "py_index (length (tasks st)) (cursor_row st)")
    case None
    from handle_edit_input_raises [OF None ne] show ?thesis
      using assms by simp
  next
    case (Some i)
    have i: "i < length (tasks st)"
      by (rule py_index_less [OF Some])
    show ?thesis
    proof (cases "recognized_key (edit_focus st) key")
      case unrec: False
      from handle_edit_input_unrecognized [OF Some unrec] show ?thesis
        using assms by simp
    next
      case rec: True
      show ?thesis
      proof (cases "edit_focus st = ''name''")
        case nm: True
        with rec ne have "is_enter key \<or> is_backspace key \<or> is_printable key"
          by (simp add: recognized_key_def)
        then consider "is_enter key" | "is_backspace key" | "is_printable key"
          by blast
        then show ?thesis
        proof cases
          case 1
          then have "tasks st' = tasks st"
            using handle_edit_input_enter [OF nm Some 1] assms by auto
          then show ?thesis
            by blast
        next
          case 2
          from handle_edit_input_backspace [OF nm Some 2] assms
          have "tasks st' = (tasks st)[i := (tasks st ! i)\<lparr>name := butlast (name (tasks st ! i))\<rparr>]"
            by auto
          then show ?thesis
            using i by (intro disjI2 exI [of _ i] exI [of _ "(tasks st ! i)\<lparr>name := butlast (name (tasks st ! i))\<rparr>"]) simp
        next
          case 3
          from handle_edit_input_printable [OF nm Some 3] assms
          have "tasks st' = tasks st \<or>
            tasks st' = (tasks st)[i := (tasks st ! i)\<lparr>name := name (tasks st ! i) @ [chr key]\<rparr>]"
            by (auto split: if_splits)
          then show ?thesis
          proof
            assume "tasks st' = tasks st"
            then show ?thesis by blast
          next
            assume "tasks st' = (tasks st)[i := (tasks st ! i)\<lparr>name := name (tasks st ! i) @ [chr key]\<rparr>]"
            then show ?thesis
              using i by (intro disjI2 exI [of _ i] exI [of _ "(tasks st ! i)\<lparr>name := name (tasks st ! i) @ [chr key]\<rparr>"]) simp
          qed
        qed
      next
        case sl: False
        with rec ne have "key = KEY_LEFT \<or> key = KEY_RIGHT \<or> key = 32 \<or> key = 114 \<or> key = 82"
          by (simp add: recognized_key_def)
        then consider "key = KEY_LEFT" | "key = KEY_RIGHT" | "key = 32" | "key = 114 \<or> key = 82"
          by blast
        then show ?thesis
        proof cases
          case 1
          then have "tasks st' = tasks st"
            using handle_edit_input_left [OF Some] assms sl by auto
          then show ?thesis
            by blast
        next
          case 2
          then have "tasks st' = tasks st"
            using handle_edit_input_right [OF Some] assms sl by auto
          then show ?thesis
            by blast
        next
          case 3
          then have "tasks st' = (tasks st)[i := toggle_work (tasks st ! i) (cursor_col st)]"
            using handle_edit_input_space [OF sl Some] assms by auto
          then show ?thesis
            using i by blast
        next
          case 4
          then have "tasks st' = (tasks st)[i := toggle_rest (tasks st ! i) (cursor_col st)]"
            using handle_edit_input_r [OF sl Some 4] assms by auto
          then show ?thesis
            using i by blast
        qed
      qed
    qed
  qed
qed

lemma task_inv_name: "task_inv (t\<lparr>name := n\<rparr>) = task_inv t"
  by (simp add: task_inv_def)

lemma handle_edit_input_task_inv:
  assumes "handle_edit_input st key = Inr (st', b)" "\<forall>t\<in>set (tasks st). task_inv t"
  shows "\<forall>t\<in>set (tasks st'). task_inv t"
proof -
  from handle_edit_input_tasks [OF assms(1)] show ?thesis
  proof
    assume "tasks st' = tasks st"
    then show ?thesis using assms(2) by simp
  next
    assume "\<exists>i t'. i < length (tasks st) \<and> tasks st' = (tasks st)[i := t'] \<and>
       (t' = (tasks st ! i)\<lparr>name := name t'\<rparr> \<or>
        t' = toggle_work (tasks st ! i) (cursor_col st) \<or>
        t' = toggle_rest (tasks st ! i) (cursor_col st))"
    then obtain i t' where i: "i < length (tasks st)" and u: "tasks st' = (tasks st)[i := t']"
      and c: "t' = (tasks st ! i)\<lparr>name := name t'\<rparr> \<or>
        t' = toggle_work (tasks st ! i) (cursor_col st) \<or>
        t' = toggle_rest (tasks st ! i) (cursor_col st)"
      by blast
    have old: "task_inv (tasks st ! i)"
      using assms(2) i by simp
    have "task_inv t'"
      using c
    proof (elim disjE)
      assume "t' = (tasks st ! i)\<lparr>name := name t'\<rparr>"
      then show ?thesis
        using old task_inv_name [where t = "tasks st ! i" and n = "name t'"] by simp
    next
      assume "t' = toggle_work (tasks st ! i) (cursor_col st)"
      then show ?thesis
        using toggle_work_inv [OF old] by simp
    next
      assume "t' = toggle_rest (tasks st ! i) (cursor_col st)"
      then show ?thesis
        using toggle_rest_inv [OF old] by simp
    qed
    then show ?thesis
      using assms(2) u set_update_subset_insert [of "tasks st" i t'] by auto
  qed
qed

lemma edit_keys_task_inv:
  assumes "edit_keys st keys = Inr st'" "\<forall>t\<in>set (tasks st). task_inv t"
  shows "\<forall>t\<in>set (tasks st'). task_inv t"
  using assms
proof (induction keys arbitrary: st)
  case Nil
  then show ?case by simp
next
  case (Cons key keys)
  show ?case
  proof (cases "handle_edit_input st key")
    case (Inl e)
    then show ?thesis
      using Cons.prems(1) by simp
  next
    case (Inr r)
    obtain st1 b where r: "r = (st1, b)"
      by (cases r)
    note h = Inr [unfolded r]
    have inv1: "\<forall>t\<in>set (tasks st1). task_inv t"
      by (rule handle_edit_input_task_inv [OF h Cons.prems(2)])
    show ?thesis
    proof (cases b)
      case True
      then have "st' = st1\<lparr>mode := ''run''\<rparr>"
        using Cons.prems(1) h by simp
      then show ?thesis
        using inv1 by simp
    next
      case False
      then have "edit_keys st1 keys = Inr st'"
        using Cons.prems(1) h by simp
      from Cons.IH [OF this inv1] show ?thesis .
    qed
  qed
qed

lemma AppState_init_task_inv: "\<forall>t\<in>set (tasks AppState_init). task_inv t"
  by (simp add: AppState_init_def Task_init_def task_inv_def)

text \<open>
  Claim C1.  The slot lists stand for sets, so each is free of duplicates; every state the
  program reaches is of this kind (the lists start empty and a slot is appended only when
  it is absent).  For such a task whose work and rest slots are disjoint, the Space
  branch (\<open>toggle_work\<close>) and the R branch (\<open>toggle_rest\<close>) both leave them disjoint and
  free of duplicates, for any slot; toggling one kind on a slot that holds the other kind
  removes the other kind.  In the slot focus, \<open>handle_edit_input\<close> on Space, \<open>r\<close> and \<open>R\<close>
  replaces the task of the cursor row by these results.  In every state that the edit
  controller reaches from the initial state, the slot lists of every task are free of
  duplicates and disjoint.
\<close>

theorem toggle_keeps_disjoint:
  assumes "distinct (slots t)" "distinct (rest_slots t)"
    "set (slots t) \<inter> set (rest_slots t) = {}"
  shows "set (slots (toggle_work t s)) \<inter> set (rest_slots (toggle_work t s)) = {} \<and>
    set (slots (toggle_rest t s)) \<inter> set (rest_slots (toggle_rest t s)) = {} \<and>
    (s \<in> set (rest_slots t) \<longrightarrow>
       s \<notin> set (rest_slots (toggle_work t s)) \<and> s \<in> set (slots (toggle_work t s))) \<and>
    (s \<in> set (slots t) \<longrightarrow>
       s \<notin> set (slots (toggle_rest t s)) \<and> s \<in> set (rest_slots (toggle_rest t s))) \<and>
    distinct (slots (toggle_work t s)) \<and> distinct (rest_slots (toggle_work t s)) \<and>
    distinct (slots (toggle_rest t s)) \<and> distinct (rest_slots (toggle_rest t s)) \<and>
    (edit_focus st \<noteq> ''name'' \<and> py_index (length (tasks st)) (cursor_row st) = Some i \<and>
     tasks st ! i = t \<and> cursor_col st = s \<longrightarrow>
       handle_edit_input st 32 = Inr (st\<lparr>tasks := (tasks st)[i := toggle_work t s]\<rparr>, False) \<and>
       handle_edit_input st 114 = Inr (st\<lparr>tasks := (tasks st)[i := toggle_rest t s]\<rparr>, False) \<and>
       handle_edit_input st 82 = Inr (st\<lparr>tasks := (tasks st)[i := toggle_rest t s]\<rparr>, False)) \<and>
    (\<forall>keys st'. edit_keys AppState_init keys = Inr st' \<longrightarrow>
       (\<forall>u\<in>set (tasks st'). distinct (slots u) \<and> distinct (rest_slots u) \<and>
          set (slots u) \<inter> set (rest_slots u) = {}))"
proof -
  have inv: "task_inv t"
    using assms by (simp add: task_inv_def)
  have w: "task_inv (toggle_work t s)"
    by (rule toggle_work_inv [OF inv])
  have r: "task_inv (toggle_rest t s)"
    by (rule toggle_rest_inv [OF inv])
  have cw: "s \<in> set (rest_slots t) \<longrightarrow>
       s \<notin> set (rest_slots (toggle_work t s)) \<and> s \<in> set (slots (toggle_work t s))"
    using toggle_work_cross [OF inv] by blast
  have cr: "s \<in> set (slots t) \<longrightarrow>
       s \<notin> set (slots (toggle_rest t s)) \<and> s \<in> set (rest_slots (toggle_rest t s))"
    using toggle_rest_cross [OF inv] by blast
  have h: "edit_focus st \<noteq> ''name'' \<and> py_index (length (tasks st)) (cursor_row st) = Some i \<and>
     tasks st ! i = t \<and> cursor_col st = s \<longrightarrow>
       handle_edit_input st 32 = Inr (st\<lparr>tasks := (tasks st)[i := toggle_work t s]\<rparr>, False) \<and>
       handle_edit_input st 114 = Inr (st\<lparr>tasks := (tasks st)[i := toggle_rest t s]\<rparr>, False) \<and>
       handle_edit_input st 82 = Inr (st\<lparr>tasks := (tasks st)[i := toggle_rest t s]\<rparr>, False)"
    using handle_edit_input_space [of st i] handle_edit_input_r [of st i 114]
      handle_edit_input_r [of st i 82] by auto
  have reach: "\<forall>keys st'. edit_keys AppState_init keys = Inr st' \<longrightarrow>
       (\<forall>u\<in>set (tasks st'). distinct (slots u) \<and> distinct (rest_slots u) \<and>
          set (slots u) \<inter> set (rest_slots u) = {})"
    using edit_keys_task_inv [OF _ AppState_init_task_inv] unfolding task_inv_def by blast
  show ?thesis
    using w r cw cr h reach unfolding task_inv_def by blast
qed

theorem toggle_keeps_disjoint_witness:
  "distinct (slots \<lparr>name = ''Write'', slots = [0, 1, 2], rest_slots = [5]\<rparr>) \<and>
   distinct (rest_slots \<lparr>name = ''Write'', slots = [0, 1, 2], rest_slots = [5]\<rparr>) \<and>
   set (slots \<lparr>name = ''Write'', slots = [0, 1, 2], rest_slots = [5]\<rparr>) \<inter>
     set (rest_slots \<lparr>name = ''Write'', slots = [0, 1, 2], rest_slots = [5]\<rparr>) = {} \<and>
   5 \<in> set (rest_slots \<lparr>name = ''Write'', slots = [0, 1, 2], rest_slots = [5]\<rparr>) \<and>
   toggle_work \<lparr>name = ''Write'', slots = [0, 1, 2], rest_slots = [5]\<rparr> 5 =
     \<lparr>name = ''Write'', slots = [0, 1, 2, 5], rest_slots = []\<rparr> \<and>
   set (slots (toggle_work \<lparr>name = ''Write'', slots = [0, 1, 2], rest_slots = [5]\<rparr> 5)) \<inter>
     set (rest_slots (toggle_work \<lparr>name = ''Write'', slots = [0, 1, 2], rest_slots = [5]\<rparr> 5)) = {} \<and>
   5 \<notin> set (rest_slots (toggle_work \<lparr>name = ''Write'', slots = [0, 1, 2], rest_slots = [5]\<rparr> 5)) \<and>
   1 \<in> set (slots \<lparr>name = ''Write'', slots = [0, 1, 2], rest_slots = [5]\<rparr>) \<and>
   toggle_rest \<lparr>name = ''Write'', slots = [0, 1, 2], rest_slots = [5]\<rparr> 1 =
     \<lparr>name = ''Write'', slots = [0, 2], rest_slots = [5, 1]\<rparr> \<and>
   set (slots (toggle_rest \<lparr>name = ''Write'', slots = [0, 1, 2], rest_slots = [5]\<rparr> 1)) \<inter>
     set (rest_slots (toggle_rest \<lparr>name = ''Write'', slots = [0, 1, 2], rest_slots = [5]\<rparr> 1)) = {} \<and>
   1 \<notin> set (slots (toggle_rest \<lparr>name = ''Write'', slots = [0, 1, 2], rest_slots = [5]\<rparr> 1)) \<and>
   handle_edit_input
     \<lparr>tasks = [\<lparr>name = ''Write'', slots = [0, 1, 2], rest_slots = [5]\<rparr>], cursor_row = 0,
      cursor_col = 5, mode = ''edit'', edit_focus = ''slots''\<rparr> 32 =
     Inr (\<lparr>tasks = [\<lparr>name = ''Write'', slots = [0, 1, 2, 5], rest_slots = []\<rparr>], cursor_row = 0,
           cursor_col = 5, mode = ''edit'', edit_focus = ''slots''\<rparr>, False) \<and>
   edit_keys AppState_init [9, 32, 114] =
     Inr (AppState_init\<lparr>edit_focus := ''slots'',
            tasks := (tasks AppState_init)[0 := \<lparr>name = [], slots = [], rest_slots = [0]\<rparr>]\<rparr>) \<and>
   list_all (\<lambda>u. set (slots u) \<inter> set (rest_slots u) = {})
     (tasks (AppState_init\<lparr>edit_focus := ''slots'',
            tasks := (tasks AppState_init)[0 := \<lparr>name = [], slots = [], rest_slots = [0]\<rparr>]\<rparr>))"
proof -
  define t :: Task where "t = \<lparr>name = ''Write'', slots = [0, 1, 2], rest_slots = [5]\<rparr>"
  define st where "st = \<lparr>tasks = [t], cursor_row = 0, cursor_col = 5, mode = ''edit'',
      edit_focus = ''slots''\<rparr>"
  define fin where "fin = AppState_init\<lparr>edit_focus := ''slots'',
            tasks := (tasks AppState_init)[0 := \<lparr>name = [], slots = [], rest_slots = [0]\<rparr>]\<rparr>"
  have h: "distinct (slots t)" "distinct (rest_slots t)" "set (slots t) \<inter> set (rest_slots t) = {}"
    and m: "5 \<in> set (rest_slots t)" "1 \<in> set (slots t)"
    by (simp_all add: t_def)
  have e: "toggle_work t 5 = \<lparr>name = ''Write'', slots = [0, 1, 2, 5], rest_slots = []\<rparr>"
    "toggle_rest t 1 = \<lparr>name = ''Write'', slots = [0, 2], rest_slots = [5, 1]\<rparr>"
    by (simp_all add: t_def toggle_work_def toggle_rest_def)
  have f: "edit_focus st \<noteq> ''name'' \<and> py_index (length (tasks st)) (cursor_row st) = Some 0 \<and>
     tasks st ! 0 = t \<and> cursor_col st = 5"
    by (simp add: st_def py_index_def)
  have u: "st\<lparr>tasks := (tasks st)[0 := toggle_work t 5]\<rparr> =
      \<lparr>tasks = [\<lparr>name = ''Write'', slots = [0, 1, 2, 5], rest_slots = []\<rparr>], cursor_row = 0,
           cursor_col = 5, mode = ''edit'', edit_focus = ''slots''\<rparr>"
    by (simp add: st_def e)
  note a = toggle_keeps_disjoint [OF h, where s = 5 and st = st and i = 0]
  note b = toggle_keeps_disjoint [OF h, where s = 1]
  from a m have a1: "set (slots (toggle_work t 5)) \<inter> set (rest_slots (toggle_work t 5)) = {}"
    and a2: "5 \<notin> set (rest_slots (toggle_work t 5))"
    by blast+
  from b m have b1: "set (slots (toggle_rest t 1)) \<inter> set (rest_slots (toggle_rest t 1)) = {}"
    and b2: "1 \<notin> set (slots (toggle_rest t 1))"
    by blast+
  from a f have "handle_edit_input st 32 =
      Inr (st\<lparr>tasks := (tasks st)[0 := toggle_work t 5]\<rparr>, False)"
    by blast
  then have a3: "handle_edit_input st 32 =
      Inr (\<lparr>tasks = [\<lparr>name = ''Write'', slots = [0, 1, 2, 5], rest_slots = []\<rparr>], cursor_row = 0,
           cursor_col = 5, mode = ''edit'', edit_focus = ''slots''\<rparr>, False)"
    unfolding u .
  define s1 where "s1 = AppState_init\<lparr>edit_focus := ''slots''\<rparr>"
  have p1: "edit_focus s1 \<noteq> ''name''" "py_index (length (tasks s1)) (cursor_row s1) = Some 0"
    by (simp_all add: s1_def AppState_init_def py_index_def MAX_TASKS_def)
  define s2 where "s2 = s1\<lparr>tasks := (tasks s1)[0 := toggle_work (tasks s1 ! 0) (cursor_col s1)]\<rparr>"
  have p2: "edit_focus s2 \<noteq> ''name''" "py_index (length (tasks s2)) (cursor_row s2) = Some 0"
    using p1 by (simp_all add: s2_def)
  have k1: "handle_edit_input AppState_init 9 = Inr (s1, False)"
    by (simp add: handle_edit_input_tab s1_def AppState_init_def)
  have k2: "handle_edit_input s1 32 = Inr (s2, False)"
    unfolding s2_def by (rule handle_edit_input_space [OF p1])
  have k3: "handle_edit_input s2 114 = Inr (fin, False)"
    using handle_edit_input_r [OF p2, of 114]
    by (simp add: fin_def s2_def s1_def AppState_init_def MAX_TASKS_def Task_init_def
        toggle_work_def toggle_rest_def eval_nat_numeral)
  have run: "edit_keys AppState_init [9, 32, 114] = Inr fin"
    by (simp add: k1 k2 k3)
  from a run have "\<forall>u\<in>set (tasks fin). set (slots u) \<inter> set (rest_slots u) = {}"
    by blast
  then have c: "list_all (\<lambda>u. set (slots u) \<inter> set (rest_slots u) = {}) (tasks fin)"
    by (simp add: list_all_iff)
  show ?thesis
    using h m e [symmetric] a1 a2 b1 b2 a3 run c unfolding t_def st_def fin_def
    by (simp only: simp_thms)
qed

text \<open>
  Claim C4.  For a task whose work slots hold no duplicate, applying \<open>toggle_work\<close> twice
  to the same slot gives back the same set of work slots.  Where the slot was a rest slot
  and no work slot, the first call moves it to the work slots, the second removes it
  again: the work list is as before, while the rest list has lost the slot.  Two Space
  keys in the slot focus do exactly this to the task of the cursor row.
\<close>

theorem toggle_work_twice:
  assumes "distinct (slots t)"
  shows "set (slots (toggle_work (toggle_work t s) s)) = set (slots t) \<and>
    (s \<in> set (rest_slots t) \<and> s \<notin> set (slots t) \<longrightarrow>
       s \<in> set (slots (toggle_work t s)) \<and>
       slots (toggle_work (toggle_work t s) s) = slots t \<and>
       rest_slots (toggle_work (toggle_work t s) s) = remove1 s (rest_slots t)) \<and>
    (edit_focus st \<noteq> ''name'' \<and> py_index (length (tasks st)) (cursor_row st) = Some i \<and>
     tasks st ! i = t \<and> cursor_col st = s \<longrightarrow>
       edit_keys st [32, 32] =
         Inr (st\<lparr>tasks := (tasks st)[i := toggle_work (toggle_work t s) s]\<rparr>))"
proof -
  have a: "set (slots (toggle_work (toggle_work t s) s)) = set (slots t)"
    by (rule toggle_work_twice_set [OF assms])
  have b: "s \<in> set (rest_slots t) \<and> s \<notin> set (slots t) \<longrightarrow>
       s \<in> set (slots (toggle_work t s)) \<and>
       slots (toggle_work (toggle_work t s) s) = slots t \<and>
       rest_slots (toggle_work (toggle_work t s) s) = remove1 s (rest_slots t)"
    using toggle_work_twice_cross [of s t] by blast
  have c: "edit_focus st \<noteq> ''name'' \<and> py_index (length (tasks st)) (cursor_row st) = Some i \<and>
     tasks st ! i = t \<and> cursor_col st = s \<longrightarrow>
       edit_keys st [32, 32] =
         Inr (st\<lparr>tasks := (tasks st)[i := toggle_work (toggle_work t s) s]\<rparr>)"
  proof (intro impI, elim conjE)
    assume f: "edit_focus st \<noteq> ''name''"
      and p: "py_index (length (tasks st)) (cursor_row st) = Some i"
      and t: "tasks st ! i = t" and s: "cursor_col st = s"
    have i: "i < length (tasks st)"
      by (rule py_index_less [OF p])
    define st1 where "st1 = st\<lparr>tasks := (tasks st)[i := toggle_work t s]\<rparr>"
    have s1: "handle_edit_input st 32 = Inr (st1, False)"
      using handle_edit_input_space [OF f p] by (simp add: st1_def t s)
    have f1: "edit_focus st1 \<noteq> ''name''"
      using f by (simp add: st1_def)
    have p1: "py_index (length (tasks st1)) (cursor_row st1) = Some i"
      using p by (simp add: st1_def)
    have s2: "handle_edit_input st1 32 =
        Inr (st\<lparr>tasks := (tasks st)[i := toggle_work (toggle_work t s) s]\<rparr>, False)"
      using handle_edit_input_space [OF f1 p1] i by (simp add: st1_def s)
    show "edit_keys st [32, 32] =
         Inr (st\<lparr>tasks := (tasks st)[i := toggle_work (toggle_work t s) s]\<rparr>)"
      by (simp add: s1 s2)
  qed
  show ?thesis
    using a b c by blast
qed

theorem toggle_work_twice_witness:
  "distinct (slots \<lparr>name = [], slots = [0, 1], rest_slots = [7]\<rparr>) \<and>
   7 \<in> set (rest_slots \<lparr>name = [], slots = [0, 1], rest_slots = [7]\<rparr>) \<and>
   7 \<notin> set (slots \<lparr>name = [], slots = [0, 1], rest_slots = [7]\<rparr>) \<and>
   set (slots (toggle_work (toggle_work \<lparr>name = [], slots = [0, 1], rest_slots = [7]\<rparr> 7) 7)) =
     set (slots \<lparr>name = [], slots = [0, 1], rest_slots = [7]\<rparr>) \<and>
   toggle_work \<lparr>name = [], slots = [0, 1], rest_slots = [7]\<rparr> 7 =
     \<lparr>name = [], slots = [0, 1, 7], rest_slots = []\<rparr> \<and>
   toggle_work (toggle_work \<lparr>name = [], slots = [0, 1], rest_slots = [7]\<rparr> 7) 7 =
     \<lparr>name = [], slots = [0, 1], rest_slots = []\<rparr> \<and>
   set (slots (toggle_work (toggle_work \<lparr>name = [], slots = [0, 1], rest_slots = [7]\<rparr> 1) 1)) =
     set (slots \<lparr>name = [], slots = [0, 1], rest_slots = [7]\<rparr>) \<and>
   edit_keys
     \<lparr>tasks = [\<lparr>name = [], slots = [0, 1], rest_slots = [7]\<rparr>], cursor_row = 0,
      cursor_col = 7, mode = ''edit'', edit_focus = ''slots''\<rparr> [32, 32] =
     Inr \<lparr>tasks = [\<lparr>name = [], slots = [0, 1], rest_slots = []\<rparr>], cursor_row = 0,
          cursor_col = 7, mode = ''edit'', edit_focus = ''slots''\<rparr>"
proof -
  define t :: Task where "t = \<lparr>name = [], slots = [0, 1], rest_slots = [7]\<rparr>"
  define st where "st = \<lparr>tasks = [t], cursor_row = 0, cursor_col = 7, mode = ''edit'',
      edit_focus = ''slots''\<rparr>"
  have h: "distinct (slots t)" and m: "7 \<in> set (rest_slots t)" "7 \<notin> set (slots t)"
    by (simp_all add: t_def)
  have e: "toggle_work t 7 = \<lparr>name = [], slots = [0, 1, 7], rest_slots = []\<rparr>"
    "toggle_work (toggle_work t 7) 7 = \<lparr>name = [], slots = [0, 1], rest_slots = []\<rparr>"
    by (simp_all add: t_def toggle_work_def)
  have f: "edit_focus st \<noteq> ''name'' \<and> py_index (length (tasks st)) (cursor_row st) = Some 0 \<and>
     tasks st ! 0 = t \<and> cursor_col st = 7"
    by (simp add: st_def py_index_def)
  note a = toggle_work_twice [OF h, where s = 7 and st = st and i = 0]
  note b = toggle_work_twice [OF h, where s = 1]
  from a have a1: "set (slots (toggle_work (toggle_work t 7) 7)) = set (slots t)"
    by blast
  from b have b1: "set (slots (toggle_work (toggle_work t 1) 1)) = set (slots t)"
    by blast
  from a f have "edit_keys st [32, 32] =
      Inr (st\<lparr>tasks := (tasks st)[0 := toggle_work (toggle_work t 7) 7]\<rparr>)"
    by blast
  moreover have "st\<lparr>tasks := (tasks st)[0 := toggle_work (toggle_work t 7) 7]\<rparr> =
      \<lparr>tasks = [\<lparr>name = [], slots = [0, 1], rest_slots = []\<rparr>], cursor_row = 0,
          cursor_col = 7, mode = ''edit'', edit_focus = ''slots''\<rparr>"
    by (simp add: e(2) st_def)
  ultimately have a2: "edit_keys st [32, 32] =
      Inr \<lparr>tasks = [\<lparr>name = [], slots = [0, 1], rest_slots = []\<rparr>], cursor_row = 0,
          cursor_col = 7, mode = ''edit'', edit_focus = ''slots''\<rparr>"
    by (simp only:)
  show ?thesis
    using h m e [symmetric] a1 b1 a2 unfolding t_def st_def
    by (simp only: simp_thms)
qed

section \<open>Cursor movement\<close>

lemma is_arrow_step:
  assumes "cursor_in_bounds st" "length (tasks st) = nat MAX_TASKS" "is_arrow key"
  shows "\<exists>st'. handle_edit_input st key = Inr (st', False) \<and> cursor_in_bounds st' \<and>
    length (tasks st') = nat MAX_TASKS"
proof -
  have "py_index (length (tasks st)) (cursor_row st) = Some (nat (cursor_row st))"
    using assms(1,2) by (simp add: py_index_def cursor_in_bounds_def MAX_TASKS_def)
  note lr = handle_edit_input_left [OF this] handle_edit_input_right [OF this]
  from assms(3) consider "key = KEY_UP" | "key = KEY_DOWN" | "key = KEY_LEFT" | "key = KEY_RIGHT"
    unfolding is_arrow_def by blast
  then show ?thesis
  proof cases
    case 1
    then show ?thesis
      using assms(1,2)
      by (simp add: handle_edit_input_up cursor_in_bounds_def MAX_TASKS_def TOTAL_SLOTS_eq)
  next
    case 2
    then show ?thesis
      using assms(1,2)
      by (simp add: handle_edit_input_down cursor_in_bounds_def MAX_TASKS_def TOTAL_SLOTS_eq)
  next
    case 3
    then show ?thesis
      using assms(1,2)
      by (simp add: lr(1) cursor_in_bounds_def MAX_TASKS_def TOTAL_SLOTS_eq)
  next
    case 4
    then show ?thesis
      using assms(1,2)
      by (simp add: lr(2) cursor_in_bounds_def MAX_TASKS_def TOTAL_SLOTS_eq)
  qed
qed

lemma edit_keys_arrows:
  assumes "cursor_in_bounds st" "length (tasks st) = nat MAX_TASKS"
    "\<forall>key\<in>set keys. is_arrow key"
  shows "\<exists>st'. edit_keys st keys = Inr st' \<and> cursor_in_bounds st' \<and>
    length (tasks st') = nat MAX_TASKS"
  using assms
proof (induction keys arbitrary: st)
  case Nil
  then show ?case by simp
next
  case (Cons key keys)
  from Cons.prems have "is_arrow key" by simp
  from is_arrow_step [OF Cons.prems(1,2) this] obtain st1 where
    s: "handle_edit_input st key = Inr (st1, False)" and b: "cursor_in_bounds st1"
    and l: "length (tasks st1) = nat MAX_TASKS"
    by blast
  from Cons.prems have "\<forall>key\<in>set keys. is_arrow key" by simp
  from Cons.IH [OF b l this] show ?case
    using s by simp
qed

text \<open>
  Claim C5.  From a state with five tasks whose cursor is within \<open>[0, 4]\<close> and \<open>[0, 25]\<close>,
  the controller handles every sequence of Up, Down, Left and Right keys without error
  and leaves the cursor within these ranges.  Up and Down move the row by \<open>max\<close> and
  \<open>min\<close> against 0 and \<open>MAX_TASKS - 1\<close>, Left and Right the column against 0 and
  \<open>TOTAL_SLOTS - 1\<close> (in the name focus they do nothing); at a boundary the key leaves
  the state as it is.
\<close>

theorem cursor_stays_in_bounds:
  assumes "cursor_in_bounds st" "length (tasks st) = nat MAX_TASKS"
    "\<forall>key\<in>set keys. is_arrow key"
  shows "(\<exists>st'. edit_keys st keys = Inr st' \<and>
       0 \<le> cursor_row st' \<and> cursor_row st' \<le> 4 \<and> 0 \<le> cursor_col st' \<and> cursor_col st' \<le> 25) \<and>
    handle_edit_input st KEY_UP = Inr (st\<lparr>cursor_row := max 0 (cursor_row st - 1)\<rparr>, False) \<and>
    handle_edit_input st KEY_DOWN =
      Inr (st\<lparr>cursor_row := min (MAX_TASKS - 1) (cursor_row st + 1)\<rparr>, False) \<and>
    handle_edit_input st KEY_LEFT =
      Inr (if edit_focus st = ''name'' then st
           else st\<lparr>cursor_col := max 0 (cursor_col st - 1)\<rparr>, False) \<and>
    handle_edit_input st KEY_RIGHT =
      Inr (if edit_focus st = ''name'' then st
           else st\<lparr>cursor_col := min (TOTAL_SLOTS - 1) (cursor_col st + 1)\<rparr>, False) \<and>
    (cursor_row st = 0 \<longrightarrow> handle_edit_input st KEY_UP = Inr (st, False)) \<and>
    (cursor_row st = MAX_TASKS - 1 \<longrightarrow> handle_edit_input st KEY_DOWN = Inr (st, False)) \<and>
    (cursor_col st = 0 \<longrightarrow> handle_edit_input st KEY_LEFT = Inr (st, False)) \<and>
    (cursor_col st = TOTAL_SLOTS - 1 \<longrightarrow> handle_edit_input st KEY_RIGHT = Inr (st, False))"
proof -
  have p: "py_index (length (tasks st)) (cursor_row st) = Some (nat (cursor_row st))"
    using assms(1,2) by (simp add: py_index_def cursor_in_bounds_def MAX_TASKS_def)
  from edit_keys_arrows [OF assms] obtain st' where
    "edit_keys st keys = Inr st'" "cursor_in_bounds st'"
    by blast
  then have a: "\<exists>st'. edit_keys st keys = Inr st' \<and>
       0 \<le> cursor_row st' \<and> cursor_row st' \<le> 4 \<and> 0 \<le> cursor_col st' \<and> cursor_col st' \<le> 25"
    by (auto simp add: cursor_in_bounds_def MAX_TASKS_def TOTAL_SLOTS_eq)
  note u = handle_edit_input_up [of st] and d = handle_edit_input_down [of st]
    and l = handle_edit_input_left [OF p] and r = handle_edit_input_right [OF p]
  have u0: "cursor_row st = 0 \<longrightarrow> handle_edit_input st KEY_UP = Inr (st, False)"
    using u by simp
  have d0: "cursor_row st = MAX_TASKS - 1 \<longrightarrow> handle_edit_input st KEY_DOWN = Inr (st, False)"
    using d by simp
  have l0: "cursor_col st = 0 \<longrightarrow> handle_edit_input st KEY_LEFT = Inr (st, False)"
    using l by simp
  have r0: "cursor_col st = TOTAL_SLOTS - 1 \<longrightarrow> handle_edit_input st KEY_RIGHT = Inr (st, False)"
    using r by simp
  show ?thesis
    using a u d l r u0 d0 l0 r0 by blast
qed

theorem cursor_stays_in_bounds_witness:
  "cursor_in_bounds (AppState_init\<lparr>cursor_row := 4, cursor_col := 25, edit_focus := ''slots''\<rparr>) \<and>
   length (tasks (AppState_init\<lparr>cursor_row := 4, cursor_col := 25, edit_focus := ''slots''\<rparr>))
     = nat MAX_TASKS \<and>
   list_all is_arrow [KEY_DOWN, KEY_RIGHT, KEY_RIGHT, KEY_DOWN] \<and>
   (\<exists>st'. edit_keys (AppState_init\<lparr>cursor_row := 4, cursor_col := 25, edit_focus := ''slots''\<rparr>)
        [KEY_DOWN, KEY_RIGHT, KEY_RIGHT, KEY_DOWN] = Inr st' \<and>
      0 \<le> cursor_row st' \<and> cursor_row st' \<le> 4 \<and> 0 \<le> cursor_col st' \<and> cursor_col st' \<le> 25) \<and>
   handle_edit_input (AppState_init\<lparr>cursor_row := 4, cursor_col := 25, edit_focus := ''slots''\<rparr>)
     KEY_DOWN =
     Inr (AppState_init\<lparr>cursor_row := 4, cursor_col := 25, edit_focus := ''slots''\<rparr>, False) \<and>
   handle_edit_input (AppState_init\<lparr>cursor_row := 4, cursor_col := 25, edit_focus := ''slots''\<rparr>)
     KEY_RIGHT =
     Inr (AppState_init\<lparr>cursor_row := 4, cursor_col := 25, edit_focus := ''slots''\<rparr>, False) \<and>
   cursor_in_bounds AppState_init \<and> length (tasks AppState_init) = nat MAX_TASKS \<and>
   handle_edit_input AppState_init KEY_UP = Inr (AppState_init, False) \<and>
   handle_edit_input AppState_init KEY_LEFT = Inr (AppState_init, False)"
proof -
  define st where
    "st = AppState_init\<lparr>cursor_row := 4, cursor_col := 25, edit_focus := ''slots''\<rparr>"
  define keys where "keys = [KEY_DOWN, KEY_RIGHT, KEY_RIGHT, KEY_DOWN]"
  have b: "cursor_in_bounds st"
    by (simp add: st_def cursor_in_bounds_def MAX_TASKS_def TOTAL_SLOTS_eq)
  have l: "length (tasks st) = nat MAX_TASKS"
    by (simp add: st_def AppState_init_def)
  have k: "\<forall>key\<in>set keys. is_arrow key"
    by (simp add: keys_def is_arrow_def)
  have e: "cursor_row st = MAX_TASKS - 1" "cursor_col st = TOTAL_SLOTS - 1"
    by (simp_all add: st_def MAX_TASKS_def TOTAL_SLOTS_eq)
  have b0: "cursor_in_bounds AppState_init"
    by (simp add: AppState_init_def cursor_in_bounds_def MAX_TASKS_def TOTAL_SLOTS_eq)
  have l0: "length (tasks AppState_init) = nat MAX_TASKS"
    by (simp add: AppState_init_def)
  have k0: "\<forall>key\<in>set []. is_arrow key"
    by simp
  have e0: "cursor_row AppState_init = 0" "cursor_col AppState_init = 0"
    by (simp_all add: AppState_init_def)
  from cursor_stays_in_bounds [OF b l k] e
  have "(\<exists>st'. edit_keys st keys = Inr st' \<and>
       0 \<le> cursor_row st' \<and> cursor_row st' \<le> 4 \<and> 0 \<le> cursor_col st' \<and> cursor_col st' \<le> 25)"
    and "handle_edit_input st KEY_DOWN = Inr (st, False)"
    and "handle_edit_input st KEY_RIGHT = Inr (st, False)"
    by blast+
  moreover have "list_all is_arrow keys"
    using k by (simp add: list_all_iff)
  moreover from cursor_stays_in_bounds [OF b0 l0 k0] e0
  have "handle_edit_input AppState_init KEY_UP = Inr (AppState_init, False)"
    and "handle_edit_input AppState_init KEY_LEFT = Inr (AppState_init, False)"
    by blast+
  ultimately show ?thesis
    using b l b0 l0 unfolding st_def keys_def by blast
qed

section \<open>Editing a name\<close>

lemma backspace_not_printable:
  assumes "is_backspace key"
  shows "\<not> is_printable key"
  using assms by (auto simp add: is_backspace_def is_printable_def KEY_BACKSPACE_def)

lemma spec_name_edit_single:
  "spec_name_edit n [key] =
     (if is_backspace key then butlast n
      else if is_printable key then (if length n < 15 then n @ [chr key] else n)
      else n)"
  by simp

lemma spec_name_edit_Cons:
  "spec_name_edit n (key # keys) = spec_name_edit (spec_name_edit n [key]) keys"
  by simp

lemma task_name_update_id:
  assumes "i < length (tasks st)"
  shows "st\<lparr>tasks := (tasks st)[i := (tasks st ! i)\<lparr>name := name (tasks st ! i)\<rparr>]\<rparr> = st"
  using assms by simp

lemma name_key_step:
  assumes "edit_focus st = ''name''" "py_index (length (tasks st)) (cursor_row st) = Some i"
    "is_printable key \<or> is_backspace key"
  shows "handle_edit_input st key =
    Inr (st\<lparr>tasks := (tasks st)[i := (tasks st ! i)
            \<lparr>name := spec_name_edit (name (tasks st ! i)) [key]\<rparr>]\<rparr>, False)"
proof (cases "is_backspace key")
  case True
  then show ?thesis
    using handle_edit_input_backspace [OF assms(1,2) True] by (simp only: spec_name_edit_single if_True)
next
  case False
  then have p: "is_printable key"
    using assms(3) by blast
  have i: "i < length (tasks st)"
    by (rule py_index_less [OF assms(2)])
  show ?thesis
  proof (cases "length (name (tasks st ! i)) < 15")
    case True
    then show ?thesis
      using handle_edit_input_printable [OF assms(1,2) p] False p
      by (simp only: spec_name_edit_single if_True if_False)
  next
    case long: False
    then have "handle_edit_input st key = Inr (st, False)"
      using handle_edit_input_printable [OF assms(1,2) p] by (simp only: if_False)
    moreover have "spec_name_edit (name (tasks st ! i)) [key] = name (tasks st ! i)"
      using long False p by (simp only: spec_name_edit_single if_True if_False)
    ultimately show ?thesis
      by (simp only: task_name_update_id [OF i])
  qed
qed

lemma edit_keys_name:
  assumes "edit_focus st = ''name''" "py_index (length (tasks st)) (cursor_row st) = Some i"
    "\<forall>key\<in>set keys. is_printable key \<or> is_backspace key"
  shows "edit_keys st keys =
    Inr (st\<lparr>tasks := (tasks st)[i := (tasks st ! i)
            \<lparr>name := spec_name_edit (name (tasks st ! i)) keys\<rparr>]\<rparr>)"
  using assms
proof (induction keys arbitrary: st)
  case Nil
  have "i < length (tasks st)"
    by (rule py_index_less [OF Nil.prems(2)])
  then show ?case by simp
next
  case (Cons key keys)
  have i: "i < length (tasks st)"
    by (rule py_index_less [OF Cons.prems(2)])
  define n1 where "n1 = spec_name_edit (name (tasks st ! i)) [key]"
  define st1 where "st1 = st\<lparr>tasks := (tasks st)[i := (tasks st ! i)\<lparr>name := n1\<rparr>]\<rparr>"
  have k: "is_printable key \<or> is_backspace key"
    using Cons.prems(3) by simp
  have step: "handle_edit_input st key = Inr (st1, False)"
    unfolding st1_def n1_def by (rule name_key_step [OF Cons.prems(1,2) k])
  have f1: "edit_focus st1 = ''name''"
    using Cons.prems(1) by (simp add: st1_def)
  have p1: "py_index (length (tasks st1)) (cursor_row st1) = Some i"
    using Cons.prems(2) by (simp add: st1_def)
  have r1: "\<forall>key\<in>set keys. is_printable key \<or> is_backspace key"
    using Cons.prems(3) by simp
  have t1: "tasks st1 ! i = (tasks st ! i)\<lparr>name := n1\<rparr>"
    using i by (simp add: st1_def)
  have "edit_keys st (key # keys) = edit_keys st1 keys"
    using step by simp
  also have "\<dots> = Inr (st1\<lparr>tasks := (tasks st1)[i := (tasks st1 ! i)
            \<lparr>name := spec_name_edit (name (tasks st1 ! i)) keys\<rparr>]\<rparr>)"
    by (rule Cons.IH [OF f1 p1 r1])
  also have "\<dots> = Inr (st\<lparr>tasks := (tasks st)[i := (tasks st ! i)
            \<lparr>name := spec_name_edit n1 keys\<rparr>]\<rparr>)"
    unfolding t1 by (simp add: st1_def)
  finally show ?case
    unfolding n1_def spec_name_edit_Cons [symmetric] .
qed

lemma spec_name_edit_length:
  assumes "length n \<le> 15"
  shows "length (spec_name_edit n keys) \<le> 15"
  using assms by (induction n keys rule: spec_name_edit.induct) auto

lemma spec_name_edit_printable:
  assumes "\<forall>key\<in>set keys. is_printable key"
  shows "spec_name_edit n keys = n @ take (15 - length n) (map chr keys)"
  using assms
proof (induction keys arbitrary: n)
  case Nil
  then show ?case by simp
next
  case (Cons key keys)
  then have p: "is_printable key" and nb: "\<not> is_backspace key"
    and r: "\<forall>key\<in>set keys. is_printable key"
    using backspace_not_printable [of key] by auto
  show ?case
  proof (cases "length n < 15")
    case True
    then obtain m where m: "15 - length n = Suc m"
      by (cases "15 - length n") simp_all
    then have "15 - length (n @ [chr key]) = m"
      by simp
    then show ?thesis
      using True p nb m Cons.IH [OF r, of "n @ [chr key]"] by simp
  next
    case False
    then show ?thesis
      using p nb Cons.IH [OF r, of n] by simp
  qed
qed

text \<open>
  Claim C6.  With the focus on the name and the cursor on task \<open>i\<close>, a sequence of printable
  characters and Backspace keys is handled without error and changes the name of task
  \<open>i\<close> only, to what the specification's table computes.  A name of at most 15
  characters stays so; printable characters typed into an empty name leave the first 15
  of them; a printable character is appended only below length 15 and otherwise leaves
  the state alone; Backspace drops the last character and leaves an empty name as it is.
\<close>

theorem name_edit_bounded:
  assumes "edit_focus st = ''name''" "py_index (length (tasks st)) (cursor_row st) = Some i"
    "\<forall>key\<in>set keys. is_printable key \<or> is_backspace key"
  shows "\<exists>st'. edit_keys st keys = Inr st' \<and>
    st' = st\<lparr>tasks := (tasks st)[i := (tasks st ! i)\<lparr>name := name (tasks st' ! i)\<rparr>]\<rparr> \<and>
    name (tasks st' ! i) = spec_name_edit (name (tasks st ! i)) keys \<and>
    (length (name (tasks st ! i)) \<le> 15 \<longrightarrow> length (name (tasks st' ! i)) \<le> 15) \<and>
    ((\<forall>key\<in>set keys. is_printable key) \<and> name (tasks st ! i) = [] \<longrightarrow>
       name (tasks st' ! i) = take 15 (map chr keys)) \<and>
    (\<forall>key. is_printable key \<longrightarrow>
       handle_edit_input st key =
         Inr (if length (name (tasks st ! i)) < 15
              then st\<lparr>tasks := (tasks st)[i := (tasks st ! i)
                     \<lparr>name := name (tasks st ! i) @ [chr key]\<rparr>]\<rparr>
              else st, False)) \<and>
    (\<forall>key. is_backspace key \<longrightarrow>
       handle_edit_input st key =
         Inr (st\<lparr>tasks := (tasks st)[i := (tasks st ! i)
                \<lparr>name := butlast (name (tasks st ! i))\<rparr>]\<rparr>, False)) \<and>
    (\<forall>key. is_backspace key \<and> name (tasks st ! i) = [] \<longrightarrow>
       handle_edit_input st key = Inr (st, False))"
proof -
  have i: "i < length (tasks st)"
    by (rule py_index_less [OF assms(2)])
  define n' where "n' = spec_name_edit (name (tasks st ! i)) keys"
  define st' where "st' = st\<lparr>tasks := (tasks st)[i := (tasks st ! i)\<lparr>name := n'\<rparr>]\<rparr>"
  have run: "edit_keys st keys = Inr st'"
    unfolding st'_def n'_def by (rule edit_keys_name [OF assms])
  have nm: "name (tasks st' ! i) = n'"
    using i by (simp add: st'_def)
  have a: "st' = st\<lparr>tasks := (tasks st)[i := (tasks st ! i)\<lparr>name := name (tasks st' ! i)\<rparr>]\<rparr>"
    unfolding nm by (simp add: st'_def)
  have b: "length (name (tasks st ! i)) \<le> 15 \<longrightarrow> length (name (tasks st' ! i)) \<le> 15"
    unfolding nm n'_def using spec_name_edit_length by blast
  have c: "(\<forall>key\<in>set keys. is_printable key) \<and> name (tasks st ! i) = [] \<longrightarrow>
       name (tasks st' ! i) = take 15 (map chr keys)"
    unfolding nm n'_def using spec_name_edit_printable [of keys "[]"] by auto
  have d: "\<forall>key. is_printable key \<longrightarrow>
       handle_edit_input st key =
         Inr (if length (name (tasks st ! i)) < 15
              then st\<lparr>tasks := (tasks st)[i := (tasks st ! i)
                     \<lparr>name := name (tasks st ! i) @ [chr key]\<rparr>]\<rparr>
              else st, False)"
    using handle_edit_input_printable [OF assms(1,2)] by blast
  have e: "\<forall>key. is_backspace key \<longrightarrow>
       handle_edit_input st key =
         Inr (st\<lparr>tasks := (tasks st)[i := (tasks st ! i)
                \<lparr>name := butlast (name (tasks st ! i))\<rparr>]\<rparr>, False)"
    using handle_edit_input_backspace [OF assms(1,2)] by blast
  have f: "\<forall>key. is_backspace key \<and> name (tasks st ! i) = [] \<longrightarrow>
       handle_edit_input st key = Inr (st, False)"
  proof (intro allI impI)
    fix key
    assume h: "is_backspace key \<and> name (tasks st ! i) = []"
    then have "butlast (name (tasks st ! i)) = name (tasks st ! i)"
      by simp
    then have "st\<lparr>tasks := (tasks st)[i := (tasks st ! i)
        \<lparr>name := butlast (name (tasks st ! i))\<rparr>]\<rparr> = st"
      using task_name_update_id [OF i] by simp
    then show "handle_edit_input st key = Inr (st, False)"
      using handle_edit_input_backspace [OF assms(1,2), of key] h by simp
  qed
  show ?thesis
    using run a nm [unfolded n'_def] b c d e f by blast
qed

theorem name_edit_bounded_witness:
  "edit_focus AppState_init = ''name'' \<and>
   py_index (length (tasks AppState_init)) (cursor_row AppState_init) = Some 0 \<and>
   list_all is_printable [97, 98, 99, 100, 101, 102, 103, 104, 105, 106, 107, 108, 109, 110, 111,
      112, 113, 114, 115, 116] \<and>
   length (name (tasks AppState_init ! 0)) \<le> 15 \<and>
   (\<exists>st'. edit_keys AppState_init [97, 98, 99, 100, 101, 102, 103, 104, 105, 106, 107, 108,
      109, 110, 111, 112, 113, 114, 115, 116] = Inr st' \<and>
      name (tasks st' ! 0) = ''abcdefghijklmno'' \<and> length (name (tasks st' ! 0)) \<le> 15) \<and>
   is_backspace 127 \<and> handle_edit_input AppState_init 127 = Inr (AppState_init, False) \<and>
   is_printable 97 \<and>
   handle_edit_input AppState_init 97 =
     Inr (AppState_init\<lparr>tasks := (tasks AppState_init)[0 := Task_init\<lparr>name := ''a''\<rparr>]\<rparr>, False)"
proof -
  define keys :: "int list" where "keys = [97, 98, 99, 100, 101, 102, 103, 104, 105, 106, 107,
    108, 109, 110, 111, 112, 113, 114, 115, 116]"
  have f: "edit_focus AppState_init = ''name''"
    by (simp add: AppState_init_def)
  have p: "py_index (length (tasks AppState_init)) (cursor_row AppState_init) = Some 0"
    by (simp add: AppState_init_def py_index_def MAX_TASKS_def)
  have k: "\<forall>key\<in>set keys. is_printable key"
    unfolding keys_def by (simp add: is_printable_def)
  then have k': "\<forall>key\<in>set keys. is_printable key \<or> is_backspace key"
    by blast
  have t0: "tasks AppState_init ! 0 = Task_init"
    by (simp add: AppState_init_def MAX_TASKS_def)
  have n: "name (tasks AppState_init ! 0) = []"
    by (simp add: t0 Task_init_def)
  have n15: "length (name (tasks AppState_init ! 0)) \<le> 15"
    by (simp add: n)
  have t: "take 15 (map chr keys) = ''abcdefghijklmno''"
    unfolding keys_def by (simp add: chr_def char_of_def)
  have bs: "is_backspace 127" and pr: "is_printable 97"
    by (simp_all add: is_backspace_def is_printable_def)
  note nb = name_edit_bounded [OF f p k']
  from nb obtain st' where
    r: "edit_keys AppState_init keys = Inr st'" and
    c: "(\<forall>key\<in>set keys. is_printable key) \<and> name (tasks AppState_init ! 0) = [] \<longrightarrow>
       name (tasks st' ! 0) = take 15 (map chr keys)" and
    d: "length (name (tasks AppState_init ! 0)) \<le> 15 \<longrightarrow> length (name (tasks st' ! 0)) \<le> 15"
    by blast
  from c k n t have "name (tasks st' ! 0) = ''abcdefghijklmno''"
    by simp
  with r d n15 have "\<exists>st'. edit_keys AppState_init keys = Inr st' \<and>
      name (tasks st' ! 0) = ''abcdefghijklmno'' \<and> length (name (tasks st' ! 0)) \<le> 15"
    by blast
  moreover have "list_all is_printable keys"
    using k by (simp add: list_all_iff)
  moreover from nb bs n have "handle_edit_input AppState_init 127 = Inr (AppState_init, False)"
    by blast
  moreover from nb pr have "handle_edit_input AppState_init 97 =
     Inr (if length (name (tasks AppState_init ! 0)) < 15
          then AppState_init\<lparr>tasks := (tasks AppState_init)[0 := (tasks AppState_init ! 0)
                 \<lparr>name := name (tasks AppState_init ! 0) @ [chr 97]\<rparr>]\<rparr>
          else AppState_init, False)"
    by blast
  then have "handle_edit_input AppState_init 97 =
     Inr (AppState_init\<lparr>tasks := (tasks AppState_init)[0 := Task_init\<lparr>name := ''a''\<rparr>]\<rparr>, False)"
    by (simp add: t0 Task_init_def chr_def char_of_def)
  ultimately show ?thesis
    using f p n15 bs pr unfolding keys_def by blast
qed

section \<open>Keys outside the tables\<close>

text \<open>
  Claim C9, amended.  In a state whose cursor row indexes a task, a key that the table of
  the current focus does not act on leaves the whole state unchanged and returns
  \<open>False\<close>; the flag returned is \<open>True\<close> exactly for F5, which leaves the state unchanged
  too.  Left and Right in the name focus, and Enter, Backspace and the printable
  characters other than Space, \<open>r\<close> and \<open>R\<close> in the slot focus are such keys.  Space, \<open>r\<close>
  and \<open>R\<close> in the name focus are not: they are printable characters of the name.
\<close>

theorem unrecognized_key_ignored:
  assumes "py_index (length (tasks st)) (cursor_row st) = Some i"
    "\<not> recognized_key (edit_focus st) key"
  shows "handle_edit_input st key = Inr (st, False) \<and>
    handle_edit_input st KEY_F5 = Inr (st, True) \<and>
    (\<forall>k st' b. handle_edit_input st k = Inr (st', b) \<longrightarrow> (b \<longleftrightarrow> k = KEY_F5)) \<and>
    \<not> recognized_key ''name'' KEY_LEFT \<and> \<not> recognized_key ''name'' KEY_RIGHT \<and>
    \<not> recognized_key ''slots'' 10 \<and> \<not> recognized_key ''slots'' 13 \<and>
    \<not> recognized_key ''slots'' KEY_ENTER \<and> \<not> recognized_key ''slots'' KEY_BACKSPACE \<and>
    (\<forall>k. is_printable k \<and> k \<noteq> 32 \<and> k \<noteq> 114 \<and> k \<noteq> 82 \<longrightarrow> \<not> recognized_key ''slots'' k) \<and>
    recognized_key ''name'' 32 \<and> recognized_key ''name'' 114 \<and> recognized_key ''name'' 82"
proof -
  have a: "handle_edit_input st key = Inr (st, False)"
    by (rule handle_edit_input_unrecognized [OF assms])
  have b: "\<forall>k st' b. handle_edit_input st k = Inr (st', b) \<longrightarrow> (b \<longleftrightarrow> k = KEY_F5)"
    using handle_edit_input_flag by blast
  have c: "\<not> recognized_key ''name'' KEY_LEFT" "\<not> recognized_key ''name'' KEY_RIGHT"
    by (simp_all add: recognized_key_def is_enter_def is_backspace_def is_printable_def key_defs)
  have d: "\<not> recognized_key ''slots'' 10" "\<not> recognized_key ''slots'' 13"
    "\<not> recognized_key ''slots'' KEY_ENTER" "\<not> recognized_key ''slots'' KEY_BACKSPACE"
    by (simp_all add: recognized_key_def key_defs)
  have e: "\<forall>k. is_printable k \<and> k \<noteq> 32 \<and> k \<noteq> 114 \<and> k \<noteq> 82 \<longrightarrow> \<not> recognized_key ''slots'' k"
    by (auto simp add: recognized_key_def is_printable_def key_defs)
  have f: "recognized_key ''name'' 32" "recognized_key ''name'' 114" "recognized_key ''name'' 82"
    by (simp_all add: recognized_key_def is_printable_def)
  show ?thesis
    using a b c d e f handle_edit_input_F5 [of st] by blast
qed

theorem unrecognized_key_ignored_witness:
  "py_index (length (tasks AppState_init)) (cursor_row AppState_init) = Some 0 \<and>
   \<not> recognized_key (edit_focus AppState_init) KEY_LEFT \<and>
   handle_edit_input AppState_init KEY_LEFT = Inr (AppState_init, False) \<and>
   \<not> recognized_key (edit_focus AppState_init) 0 \<and>
   handle_edit_input AppState_init 0 = Inr (AppState_init, False) \<and>
   handle_edit_input AppState_init KEY_F5 = Inr (AppState_init, True) \<and>
   is_printable 97 \<and> \<not> recognized_key ''slots'' 97"
proof -
  have p: "py_index (length (tasks AppState_init)) (cursor_row AppState_init) = Some 0"
    by (simp add: AppState_init_def py_index_def MAX_TASKS_def)
  have u: "\<not> recognized_key (edit_focus AppState_init) KEY_LEFT"
    "\<not> recognized_key (edit_focus AppState_init) 0"
    by (simp_all add: AppState_init_def recognized_key_def is_enter_def is_backspace_def
        is_printable_def key_defs)
  have q: "is_printable 97 \<and> (97::int) \<noteq> 32 \<and> (97::int) \<noteq> 114 \<and> (97::int) \<noteq> 82"
    by (simp add: is_printable_def)
  from unrecognized_key_ignored [OF p u(1)] unrecognized_key_ignored [OF p u(2)] p u q
  show ?thesis
    by blast
qed

text \<open>
  Claim C9 as stated counts Space and R in the name focus among the ignored keys.  In the
  initial state, whose focus is the name, each of them is appended to the name of task 0.
\<close>

theorem space_in_name_focus_counterexample:
  "edit_focus AppState_init = ''name'' \<and>
   handle_edit_input AppState_init 32 =
     Inr (AppState_init\<lparr>tasks := (tasks AppState_init)[0 := Task_init\<lparr>name := '' ''\<rparr>]\<rparr>, False) \<and>
   handle_edit_input AppState_init 82 =
     Inr (AppState_init\<lparr>tasks := (tasks AppState_init)[0 := Task_init\<lparr>name := ''R''\<rparr>]\<rparr>, False) \<and>
   handle_edit_input AppState_init 32 \<noteq> Inr (AppState_init, False) \<and>
   handle_edit_input AppState_init 82 \<noteq> Inr (AppState_init, False)"
proof -
  have f: "edit_focus AppState_init = ''name''"
    by (simp add: AppState_init_def)
  have p: "py_index (length (tasks AppState_init)) (cursor_row AppState_init) = Some 0"
    by (simp add: AppState_init_def py_index_def MAX_TASKS_def)
  have t: "tasks AppState_init ! 0 = Task_init" "name Task_init = []"
    by (simp_all add: AppState_init_def MAX_TASKS_def Task_init_def)
  have k: "is_printable 32" "is_printable 82"
    by (simp_all add: is_printable_def)
  have c: "[chr 32] = '' ''" "[chr 82] = ''R''"
    by (simp_all add: chr_def char_of_def)
  have a: "handle_edit_input AppState_init 32 =
     Inr (AppState_init\<lparr>tasks := (tasks AppState_init)[0 := Task_init\<lparr>name := '' ''\<rparr>]\<rparr>, False)"
    using handle_edit_input_printable [OF f p k(1)] by (simp add: t c)
  have b: "handle_edit_input AppState_init 82 =
     Inr (AppState_init\<lparr>tasks := (tasks AppState_init)[0 := Task_init\<lparr>name := ''R''\<rparr>]\<rparr>, False)"
    using handle_edit_input_printable [OF f p k(2)] by (simp add: t c)
  have n: "AppState_init\<lparr>tasks := (tasks AppState_init)[0 := Task_init\<lparr>name := '' ''\<rparr>]\<rparr>
      \<noteq> AppState_init"
    "AppState_init\<lparr>tasks := (tasks AppState_init)[0 := Task_init\<lparr>name := ''R''\<rparr>]\<rparr>
      \<noteq> AppState_init"
    by (simp_all add: AppState_init_def MAX_TASKS_def Task_init_def numeral_eq_Suc)
  show ?thesis
    using f a b n by simp
qed

section \<open>The slot bar\<close>

lemma foldl_append_concat:
  "foldl (\<lambda>result i. result @ f i) acc xs = acc @ concat (map f xs)"
  by (induction xs arbitrary: acc) simp_all

lemma format_slot_bar_concat:
  "format_slot_bar ws rs cs run =
     concat (map (\<lambda>i. spec_glyph ws rs cs run i @ spec_glyph ws rs cs run i @
                    (if i < TOTAL_SLOTS - 1 then [46] else [])) (py_range TOTAL_SLOTS))"
proof -
  have "(\<lambda>result i.
        let char =
              (if i \<in> set rs then REST
               else if i \<in> set ws then
                 (if run then
                    (if i < cs then FILLED
                     else if i = cs then CURRENT
                     else EMPTY)
                  else EMPTY)
               else [32]);
            result = result @ char @ char
        in if i < TOTAL_SLOTS - 1 then result @ [46] else result)
     = (\<lambda>result i. result @ (spec_glyph ws rs cs run i @ spec_glyph ws rs cs run i @
                    (if i < TOTAL_SLOTS - 1 then [46] else [])))"
    by (simp add: fun_eq_iff Let_def spec_glyph_def)
  then show ?thesis
    unfolding format_slot_bar_def by (simp only: foldl_append_concat append_Nil)
qed

lemma length_spec_glyph: "length (spec_glyph ws rs cs run i) = 1"
  by (simp add: spec_glyph_def REST_def FILLED_def CURRENT_def EMPTY_def)

lemma drop_concat_chunks:
  assumes "\<forall>x\<in>set xs. length (f x) = 3"
  shows "drop (3 * length xs) (concat (map f xs) @ rest) = rest"
  using assms by (induction xs) simp_all

lemma py_range_split:
  assumes "0 \<le> i" "i < n"
  shows "py_range n = [0..i - 1] @ i # [i + 1..n - 1]"
proof -
  have "[0..n - 1] = [0..i - 1] @ [i..n - 1]"
    using assms by (simp add: upto_split1)
  also have "[i..n - 1] = i # [i + 1..n - 1]"
    using assms by (simp add: upto_rec1)
  finally show ?thesis
    by (simp add: py_range_def)
qed

lemma bar_cell_glyph:
  assumes "0 \<le> i" "i < TOTAL_SLOTS"
  shows "bar_cell (format_slot_bar ws rs cs run) i =
    spec_glyph ws rs cs run i @ spec_glyph ws rs cs run i"
proof -
  define f where "f = (\<lambda>i. spec_glyph ws rs cs run i @ spec_glyph ws rs cs run i @
                    (if i < TOTAL_SLOTS - 1 then [46] else []))"
  have three: "\<forall>x\<in>set [0..i - 1]. length (f x) = 3"
    using assms by (simp add: f_def length_spec_glyph)
  have len: "length [0..i - 1] = nat i"
    using assms by simp
  have bar: "format_slot_bar ws rs cs run =
      concat (map f [0..i - 1]) @ (f i @ concat (map f [i + 1..TOTAL_SLOTS - 1]))"
    unfolding format_slot_bar_concat f_def [symmetric]
    by (simp add: py_range_split [OF assms])
  have "drop (3 * nat i) (concat (map f [0..i - 1]) @ rest) = rest" for rest
    using drop_concat_chunks [OF three, of rest] unfolding len .
  then have "drop (3 * nat i) (format_slot_bar ws rs cs run) =
      f i @ concat (map f [i + 1..TOTAL_SLOTS - 1])"
    unfolding bar .
  then show ?thesis
    by (simp add: bar_cell_def f_def length_spec_glyph)
qed

lemma length_format_slot_bar: "length (format_slot_bar ws rs cs run) = 77"
  by (simp add: format_slot_bar_concat py_range_def TOTAL_SLOTS_eq length_concat
      length_spec_glyph upto_rec1 o_def)

lemma concat_map_const:
  assumes "\<forall>x\<in>set xs. f x = c"
  shows "concat (map f xs) = concat (replicate (length xs) c)"
  using assms by (induction xs) simp_all

lemma blank_bar:
  "format_slot_bar [] [] cs run = concat (replicate 25 [32, 32, 46]) @ [32, 32]"
proof -
  define f where "f = (\<lambda>i. spec_glyph [] [] cs run i @ spec_glyph [] [] cs run i @
                    (if i < TOTAL_SLOTS - 1 then [46] else []))"
  have r: "py_range TOTAL_SLOTS = [0..24] @ [25]"
    using py_range_split [of 25 TOTAL_SLOTS] by (simp add: TOTAL_SLOTS_eq)
  have c: "\<forall>x\<in>set [0..24]. f x = [32, 32, 46]"
    by (simp add: f_def spec_glyph_def TOTAL_SLOTS_eq)
  have l: "f 25 = [32, 32]"
    by (simp add: f_def spec_glyph_def TOTAL_SLOTS_eq)
  have e: "format_slot_bar [] [] cs run = concat (map f [0..24]) @ f 25"
    unfolding format_slot_bar_concat f_def [symmetric] r by simp
  have n: "length [0..24::int] = 25"
    by simp
  show ?thesis
    unfolding e concat_map_const [OF c] l n by (rule refl)
qed

lemma scenario_bar:
  "format_slot_bar [0, 1, 2] [] 1 True =
     FILLED @ FILLED @ [46] @ CURRENT @ CURRENT @ [46] @ EMPTY @ EMPTY @ [46] @
       concat (replicate 22 [32, 32, 46]) @ [32, 32]"
proof -
  define f where "f = (\<lambda>i. spec_glyph [0, 1, 2] [] 1 True i @ spec_glyph [0, 1, 2] [] 1 True i @
                    (if i < TOTAL_SLOTS - 1 then [46] else []))"
  have "[0..25] = [0, 1, 2] @ [3..24] @ [25::int]"
    by (simp add: upto_rec1)
  then have r: "py_range TOTAL_SLOTS = [0, 1, 2] @ [3..24] @ [25]"
    by (simp only: py_range_def TOTAL_SLOTS_eq) simp
  have c: "\<forall>x\<in>set [3..24]. f x = [32, 32, 46]"
    by (simp add: f_def spec_glyph_def TOTAL_SLOTS_eq)
  have l: "f 0 = FILLED @ FILLED @ [46]" "f 1 = CURRENT @ CURRENT @ [46]"
    "f 2 = EMPTY @ EMPTY @ [46]" "f 25 = [32, 32]"
    by (simp_all add: f_def spec_glyph_def TOTAL_SLOTS_eq)
  have e: "format_slot_bar [0, 1, 2] [] 1 True =
      f 0 @ f 1 @ f 2 @ concat (map f [3..24]) @ f 25"
    unfolding format_slot_bar_concat f_def [symmetric] r by simp
  have n: "length [3..24::int] = 22"
    by simp
  show ?thesis
    unfolding e concat_map_const [OF c] l n by (simp only: append_assoc)
qed

lemma slot_bar_rows_init:
  "draw_interface_slot_bars
     (AppState_init\<lparr>tasks := (tasks AppState_init)
        [0 := \<lparr>name = ''Write'', slots = [0, 1, 2], rest_slots = []\<rparr>], mode := ''run''\<rparr>)
     \<lparr>hour = 8, minute = 45, second = 0\<rparr> =
   Inr [FILLED @ FILLED @ [46] @ CURRENT @ CURRENT @ [46] @ EMPTY @ EMPTY @ [46] @
          concat (replicate 22 [32, 32, 46]) @ [32, 32],
        concat (replicate 25 [32, 32, 46]) @ [32, 32],
        concat (replicate 25 [32, 32, 46]) @ [32, 32],
        concat (replicate 25 [32, 32, 46]) @ [32, 32],
        concat (replicate 25 [32, 32, 46]) @ [32, 32]]"
proof -
  have s: "get_current_slot \<lparr>hour = 8, minute = 45, second = 0\<rparr> = 1"
    by (simp add: get_current_slot_def START_HOUR_def END_HOUR_def)
  have r: "py_range MAX_TASKS = [0, 1, 2, 3, 4]"
    by (simp add: py_range_def MAX_TASKS_def upto_rec1)
  have t: "tasks (AppState_init\<lparr>tasks := (tasks AppState_init)
        [0 := \<lparr>name = ''Write'', slots = [0, 1, 2], rest_slots = []\<rparr>], mode := ''run''\<rparr>) =
      [\<lparr>name = ''Write'', slots = [0, 1, 2], rest_slots = []\<rparr>, Task_init, Task_init,
       Task_init, Task_init]"
    by (simp add: AppState_init_def MAX_TASKS_def eval_nat_numeral)
  show ?thesis
    unfolding draw_interface_slot_bars_def t
    by (simp add: s r py_index_def Task_init_def blank_bar scenario_bar)
qed

text \<open>
  Claim C7.  For every slot \<open>i\<close> of the 26, the two characters of the slot in the bar that
  \<open>format_slot_bar\<close> returns are: the rest glyph when \<open>i\<close> is a rest slot, whatever the
  mode and the current slot; for a work slot that is no rest slot, the filled glyph when
  \<open>i\<close> is before the current slot, the current glyph at the current slot and the empty
  glyph after it while running, and the empty glyph while editing; blanks for an unmarked
  slot.  The bar is 77 characters long, and all blank for a task without marked slots.
  For the state whose task 0 has the work slots
  0, 1 and 2, drawn in run mode at 08:45, the bar of task 0 shows filled, current, empty
  and then blanks, and the bars of the other four tasks are blank.
\<close>

theorem slot_bar_glyphs:
  assumes "0 \<le> i" "i < TOTAL_SLOTS"
  shows "length (format_slot_bar ws rs cs run) = 77 \<and>
    (i \<in> set rs \<longrightarrow> bar_cell (format_slot_bar ws rs cs run) i = REST @ REST) \<and>
    (i \<notin> set rs \<and> i \<in> set ws \<and> run \<and> i < cs \<longrightarrow>
       bar_cell (format_slot_bar ws rs cs run) i = FILLED @ FILLED) \<and>
    (i \<notin> set rs \<and> i \<in> set ws \<and> run \<and> i = cs \<longrightarrow>
       bar_cell (format_slot_bar ws rs cs run) i = CURRENT @ CURRENT) \<and>
    (i \<notin> set rs \<and> i \<in> set ws \<and> run \<and> cs < i \<longrightarrow>
       bar_cell (format_slot_bar ws rs cs run) i = EMPTY @ EMPTY) \<and>
    (i \<notin> set rs \<and> i \<in> set ws \<and> \<not> run \<longrightarrow>
       bar_cell (format_slot_bar ws rs cs run) i = EMPTY @ EMPTY) \<and>
    (i \<notin> set rs \<and> i \<notin> set ws \<longrightarrow> bar_cell (format_slot_bar ws rs cs run) i = [32, 32]) \<and>
    format_slot_bar [] [] cs run = concat (replicate 25 [32, 32, 46]) @ [32, 32] \<and>
    draw_interface_slot_bars
       (AppState_init\<lparr>tasks := (tasks AppState_init)
          [0 := \<lparr>name = ''Write'', slots = [0, 1, 2], rest_slots = []\<rparr>], mode := ''run''\<rparr>)
       \<lparr>hour = 8, minute = 45, second = 0\<rparr> =
     Inr [FILLED @ FILLED @ [46] @ CURRENT @ CURRENT @ [46] @ EMPTY @ EMPTY @ [46] @
            concat (replicate 22 [32, 32, 46]) @ [32, 32],
          concat (replicate 25 [32, 32, 46]) @ [32, 32],
          concat (replicate 25 [32, 32, 46]) @ [32, 32],
          concat (replicate 25 [32, 32, 46]) @ [32, 32],
          concat (replicate 25 [32, 32, 46]) @ [32, 32]]"
proof -
  note c = bar_cell_glyph [OF assms, of ws rs cs run]
  have a: "i \<in> set rs \<longrightarrow> bar_cell (format_slot_bar ws rs cs run) i = REST @ REST"
    using c by (auto simp add: spec_glyph_def)
  have b: "i \<notin> set rs \<and> i \<in> set ws \<and> run \<and> i < cs \<longrightarrow>
       bar_cell (format_slot_bar ws rs cs run) i = FILLED @ FILLED"
    using c by (auto simp add: spec_glyph_def)
  have d: "i \<notin> set rs \<and> i \<in> set ws \<and> run \<and> i = cs \<longrightarrow>
       bar_cell (format_slot_bar ws rs cs run) i = CURRENT @ CURRENT"
    using c by (auto simp add: spec_glyph_def)
  have e: "i \<notin> set rs \<and> i \<in> set ws \<and> run \<and> cs < i \<longrightarrow>
       bar_cell (format_slot_bar ws rs cs run) i = EMPTY @ EMPTY"
    using c by (auto simp add: spec_glyph_def)
  have f: "i \<notin> set rs \<and> i \<in> set ws \<and> \<not> run \<longrightarrow>
       bar_cell (format_slot_bar ws rs cs run) i = EMPTY @ EMPTY"
    using c by (auto simp add: spec_glyph_def)
  have g: "i \<notin> set rs \<and> i \<notin> set ws \<longrightarrow> bar_cell (format_slot_bar ws rs cs run) i = [32, 32]"
    using c by (auto simp add: spec_glyph_def)
  show ?thesis
    using length_format_slot_bar [of ws rs cs run] a b d e f g blank_bar [of cs run]
      slot_bar_rows_init by blast
qed

theorem slot_bar_glyphs_witness:
  "(0::int) \<le> 0 \<and> 0 < TOTAL_SLOTS \<and> (0::int) \<le> 1 \<and> 1 < TOTAL_SLOTS \<and>
   (0::int) \<le> 2 \<and> 2 < TOTAL_SLOTS \<and> (0::int) \<le> 25 \<and> 25 < TOTAL_SLOTS \<and>
   bar_cell (format_slot_bar [0, 1, 2] [] 1 True) 0 = FILLED @ FILLED \<and>
   bar_cell (format_slot_bar [0, 1, 2] [] 1 True) 1 = CURRENT @ CURRENT \<and>
   bar_cell (format_slot_bar [0, 1, 2] [] 1 True) 2 = EMPTY @ EMPTY \<and>
   bar_cell (format_slot_bar [0, 1, 2] [] 1 False) 0 = EMPTY @ EMPTY \<and>
   bar_cell (format_slot_bar [0, 1, 2] [2] 1 True) 2 = REST @ REST \<and>
   bar_cell (format_slot_bar [0, 1, 2] [2] 1 False) 2 = REST @ REST \<and>
   bar_cell (format_slot_bar [0, 1, 2] [] 1 True) 25 = [32, 32]"
proof -
  have h: "(0::int) \<le> 0" "0 < TOTAL_SLOTS" "(0::int) \<le> 1" "1 < TOTAL_SLOTS"
    "(0::int) \<le> 2" "2 < TOTAL_SLOTS" "(0::int) \<le> 25" "25 < TOTAL_SLOTS"
    by (simp_all add: TOTAL_SLOTS_eq)
  have m: "(0::int) \<in> set [0, 1, 2]" "(1::int) \<in> set [0, 1, 2]" "(2::int) \<in> set [0, 1, 2]"
    "(0::int) \<notin> set []" "(1::int) \<notin> set []" "(2::int) \<notin> set []" "(2::int) \<in> set [2]"
    "(25::int) \<notin> set [0, 1, 2]" "(25::int) \<notin> set []" "(0::int) < 1" "(1::int) < 2"
    by simp_all
  from slot_bar_glyphs [OF h(1,2), where ws = "[0, 1, 2]" and rs = "[]" and cs = 1 and run = True] m
  have a: "bar_cell (format_slot_bar [0, 1, 2] [] 1 True) 0 = FILLED @ FILLED"
    by blast
  from slot_bar_glyphs [OF h(3,4), where ws = "[0, 1, 2]" and rs = "[]" and cs = 1 and run = True] m
  have b: "bar_cell (format_slot_bar [0, 1, 2] [] 1 True) 1 = CURRENT @ CURRENT"
    by blast
  from slot_bar_glyphs [OF h(5,6), where ws = "[0, 1, 2]" and rs = "[]" and cs = 1 and run = True] m
  have c: "bar_cell (format_slot_bar [0, 1, 2] [] 1 True) 2 = EMPTY @ EMPTY"
    by blast
  from slot_bar_glyphs [OF h(1,2), where ws = "[0, 1, 2]" and rs = "[]" and cs = 1 and run = False] m
  have d: "bar_cell (format_slot_bar [0, 1, 2] [] 1 False) 0 = EMPTY @ EMPTY"
    by blast
  from slot_bar_glyphs [OF h(5,6), where ws = "[0, 1, 2]" and rs = "[2]" and cs = 1 and run = True] m
  have e: "bar_cell (format_slot_bar [0, 1, 2] [2] 1 True) 2 = REST @ REST"
    by blast
  from slot_bar_glyphs [OF h(5,6), where ws = "[0, 1, 2]" and rs = "[2]" and cs = 1 and run = False] m
  have f: "bar_cell (format_slot_bar [0, 1, 2] [2] 1 False) 2 = REST @ REST"
    by blast
  from slot_bar_glyphs [OF h(7,8), where ws = "[0, 1, 2]" and rs = "[]" and cs = 1 and run = True] m
  have g: "bar_cell (format_slot_bar [0, 1, 2] [] 1 True) 25 = [32, 32]"
    by blast
  show ?thesis
    using h a b c d e f g by blast
qed

section \<open>The end of the day in the run loop\<close>

lemma final_sounds_eq:
  "final_sounds =
     [Beep, Sleep 300, Beep, Sleep 300, Beep, Sleep 300, Beep, Sleep 300, Beep, Sleep 300]"
  by (simp add: final_sounds_def py_range_def upto_rec1)

lemma main_iteration_day_end:
  assumes "mode (state st) = ''run''" "\<not> draw_interface_raises (state st)"
    "day_end_test (get_current_slot (tick_slot_now t))"
  shows "main_iteration st t =
    ([Render] @ (if minute (tick_now t) = last_minute st then [] else [Beep]) @ final_sounds,
     Break)"
  using assms by (simp add: main_iteration_def Let_def)

lemma main_loop_break:
  assumes "main_iteration st t = (ev, Break)"
  shows "main_loop st (t # ts) = (ev, Break)"
  using assms by simp

lemma draw_interface_init_ok:
  assumes "tasks s = tasks AppState_init" "cursor_row s = 0"
  shows "\<not> draw_interface_raises s"
  using assms
  by (simp add: draw_interface_raises_def AppState_init_def MAX_TASKS_def py_range_def
      py_index_def upto_rec1)

text \<open>
  Claim C3, amended.  In run mode, on the iteration that finds the day-end test true, the
  loop renders once, emits the per-minute alert when the minute read differs from the one
  last alerted, then emits exactly five alerts, each followed by a pause of 0.3 s, and
  stops: whatever ticks follow, the trace of the loop ends with this iteration and holds
  no further render.  So the iteration emits five alerts when the minute is unchanged
  and six when it has changed.
\<close>

theorem day_end_alerts:
  assumes "mode (state st) = ''run''" "\<not> draw_interface_raises (state st)"
    "day_end_test (get_current_slot (tick_slot_now t))"
  shows "main_iteration st t =
      ([Render] @ (if minute (tick_now t) = last_minute st then [] else [Beep]) @
       [Beep, Sleep 300, Beep, Sleep 300, Beep, Sleep 300, Beep, Sleep 300, Beep, Sleep 300],
       Break) \<and>
    main_loop st (t # ts) = main_iteration st t \<and>
    count_list (fst (main_loop st (t # ts))) Render = 1 \<and>
    count_list (fst (main_iteration st t)) Beep =
      (if minute (tick_now t) = last_minute st then 5 else 6)"
proof -
  have a: "main_iteration st t =
      ([Render] @ (if minute (tick_now t) = last_minute st then [] else [Beep]) @
       [Beep, Sleep 300, Beep, Sleep 300, Beep, Sleep 300, Beep, Sleep 300, Beep, Sleep 300],
       Break)"
    using main_iteration_day_end [OF assms] by (simp only: final_sounds_eq)
  have b: "main_loop st (t # ts) = main_iteration st t"
    using main_loop_break [OF a] a by simp
  have c: "count_list (fst (main_loop st (t # ts))) Render = 1"
    unfolding b a by simp
  have d: "count_list (fst (main_iteration st t)) Beep =
      (if minute (tick_now t) = last_minute st then 5 else 6)"
    unfolding a by simp
  show ?thesis
    using a b c d by blast
qed

theorem day_end_alerts_witness:
  "mode (state \<lparr>state = AppState_init\<lparr>mode := ''run''\<rparr>, last_minute = 59, last_beep_slot = - 1\<rparr>)
     = ''run'' \<and>
   \<not> draw_interface_raises
     (state \<lparr>state = AppState_init\<lparr>mode := ''run''\<rparr>, last_minute = 59, last_beep_slot = - 1\<rparr>) \<and>
   day_end_test (get_current_slot (tick_slot_now
     \<lparr>tick_now = \<lparr>hour = 20, minute = 59, second = 59\<rparr>,
      tick_slot_now = \<lparr>hour = 21, minute = 0, second = 0\<rparr>, tick_key = - 1\<rparr>)) \<and>
   main_loop \<lparr>state = AppState_init\<lparr>mode := ''run''\<rparr>, last_minute = 59, last_beep_slot = - 1\<rparr>
     [\<lparr>tick_now = \<lparr>hour = 20, minute = 59, second = 59\<rparr>,
       tick_slot_now = \<lparr>hour = 21, minute = 0, second = 0\<rparr>, tick_key = - 1\<rparr>,
      \<lparr>tick_now = \<lparr>hour = 21, minute = 0, second = 2\<rparr>,
       tick_slot_now = \<lparr>hour = 21, minute = 0, second = 2\<rparr>, tick_key = 113\<rparr>] =
     ([Render, Beep, Sleep 300, Beep, Sleep 300, Beep, Sleep 300, Beep, Sleep 300,
       Beep, Sleep 300], Break)"
proof -
  define st where
    "st = \<lparr>state = AppState_init\<lparr>mode := ''run''\<rparr>, last_minute = 59, last_beep_slot = - 1\<rparr>"
  define t where "t = \<lparr>tick_now = \<lparr>hour = 20, minute = 59, second = 59\<rparr>,
      tick_slot_now = \<lparr>hour = 21, minute = 0, second = 0\<rparr>, tick_key = - 1\<rparr>"
  define t' where "t' = \<lparr>tick_now = \<lparr>hour = 21, minute = 0, second = 2\<rparr>,
       tick_slot_now = \<lparr>hour = 21, minute = 0, second = 2\<rparr>, tick_key = 113\<rparr>"
  have m: "mode (state st) = ''run''"
    by (simp add: st_def)
  have d: "\<not> draw_interface_raises (state st)"
    by (rule draw_interface_init_ok) (simp_all add: st_def AppState_init_def)
  have e: "day_end_test (get_current_slot (tick_slot_now t))"
    by (simp add: t_def day_end_test_def get_current_slot_def END_HOUR_def)
  have s: "minute (tick_now t) = last_minute st"
    by (simp add: t_def st_def)
  from day_end_alerts [OF m d e, of "[t']"] s
  have "main_loop st [t, t'] =
     ([Render, Beep, Sleep 300, Beep, Sleep 300, Beep, Sleep 300, Beep, Sleep 300,
       Beep, Sleep 300], Break)"
    by simp
  with m d e show ?thesis
    unfolding st_def t_def t'_def by blast
qed

text \<open>
  Claim C3 as stated has exactly five alerts on the iteration that observes the end of the
  day.  Started with F5 at 20:59:30 and woken next at 21:00:01, the loop emits six alerts
  on that iteration: the per-minute alert and the five of the end of the day.
\<close>

theorem day_end_six_alerts_counterexample:
  "main_loop main_init
     [\<lparr>tick_now = \<lparr>hour = 20, minute = 59, second = 30\<rparr>,
       tick_slot_now = \<lparr>hour = 20, minute = 59, second = 30\<rparr>, tick_key = KEY_F5\<rparr>,
      \<lparr>tick_now = \<lparr>hour = 21, minute = 0, second = 1\<rparr>,
       tick_slot_now = \<lparr>hour = 21, minute = 0, second = 1\<rparr>, tick_key = - 1\<rparr>] =
     ([Render, Render, Beep, Beep, Sleep 300, Beep, Sleep 300, Beep, Sleep 300, Beep, Sleep 300,
       Beep, Sleep 300], Break) \<and>
   mode (state (main_init\<lparr>state := AppState_init\<lparr>mode := ''run''\<rparr>\<rparr>)) = ''run'' \<and>
   get_current_slot \<lparr>hour = 21, minute = 0, second = 1\<rparr> = - 1 \<and>
   main_iteration (main_init\<lparr>state := AppState_init\<lparr>mode := ''run''\<rparr>\<rparr>)
     \<lparr>tick_now = \<lparr>hour = 21, minute = 0, second = 1\<rparr>,
      tick_slot_now = \<lparr>hour = 21, minute = 0, second = 1\<rparr>, tick_key = - 1\<rparr> =
     ([Render, Beep, Beep, Sleep 300, Beep, Sleep 300, Beep, Sleep 300, Beep, Sleep 300,
       Beep, Sleep 300], Break) \<and>
   count_list (fst (main_iteration (main_init\<lparr>state := AppState_init\<lparr>mode := ''run''\<rparr>\<rparr>)
     \<lparr>tick_now = \<lparr>hour = 21, minute = 0, second = 1\<rparr>,
      tick_slot_now = \<lparr>hour = 21, minute = 0, second = 1\<rparr>, tick_key = - 1\<rparr>)) Beep \<noteq> 5"
proof -
  define t1 where "t1 = \<lparr>tick_now = \<lparr>hour = 20, minute = 59, second = 30\<rparr>,
       tick_slot_now = \<lparr>hour = 20, minute = 59, second = 30\<rparr>, tick_key = KEY_F5\<rparr>"
  define t2 where "t2 = \<lparr>tick_now = \<lparr>hour = 21, minute = 0, second = 1\<rparr>,
       tick_slot_now = \<lparr>hour = 21, minute = 0, second = 1\<rparr>, tick_key = - 1\<rparr>"
  define run0 where "run0 = main_init\<lparr>state := AppState_init\<lparr>mode := ''run''\<rparr>\<rparr>"
  have d0: "\<not> draw_interface_raises (state main_init)"
    by (rule draw_interface_init_ok) (simp_all add: main_init_def AppState_init_def)
  have d1: "\<not> draw_interface_raises (state run0)"
    by (rule draw_interface_init_ok) (simp_all add: run0_def AppState_init_def)
  have m0: "mode (state main_init) = ''edit''"
    by (simp add: main_init_def AppState_init_def)
  have m1: "mode (state run0) = ''run''"
    by (simp add: run0_def)
  have k: "tick_key t1 = KEY_F5" "KEY_F5 \<noteq> - 1"
    by (simp_all add: t1_def KEY_F5_def)
  have i1: "main_iteration main_init t1 = ([Render], Continue run0)"
    using d0 m0 k
    by (simp add: main_iteration_def Let_def handle_edit_input_F5 run0_def main_init_def)
  have s: "get_current_slot \<lparr>hour = 21, minute = 0, second = 1\<rparr> = - 1"
    by (simp add: get_current_slot_def END_HOUR_def)
  have i2: "main_iteration run0 t2 =
     ([Render, Beep, Beep, Sleep 300, Beep, Sleep 300, Beep, Sleep 300, Beep, Sleep 300,
       Beep, Sleep 300], Break)"
    using d1 m1 s
    by (simp add: main_iteration_def Let_def t2_def day_end_test_def final_sounds_eq run0_def
        main_init_def)
  have l: "main_loop main_init [t1, t2] =
     ([Render, Render, Beep, Beep, Sleep 300, Beep, Sleep 300, Beep, Sleep 300, Beep, Sleep 300,
       Beep, Sleep 300], Break)"
    by (simp add: i1 i2)
  have c: "count_list (fst (main_iteration run0 t2)) Beep \<noteq> 5"
    unfolding i2 by simp
  show ?thesis
    using l m1 s i2 c unfolding t1_def t2_def run0_def by blast
qed

end
